theory Spec2Isabelle
  imports Complex_Main "HOL-Library.Word" "HOL-Library.Signed_Division" "HOL-Library.Log_Nat"
begin

section \<open>Data model of speedtest.go\<close>

text \<open>
  Go's \<open>int64\<close> is a 64-bit word read as two's complement; \<open>time.Duration\<close> is an
  \<open>int64\<close> count of nanoseconds.
\<close>

type_synonym int64 = "64 word"
type_synonym Duration = int64

text \<open>
  A \<open>float64\<close> value is NaN, an infinity or a finite number. Every finite double is a
  rational, so \<open>Fin q\<close> carries its exact value (both zeros are \<open>Fin 0\<close>: Go's comparisons
  do not tell them apart).
\<close>

datatype float64 = Fin rat | PInf | NInf | NaN

text \<open>Go's \<open>x >= y\<close> and \<open>x < y\<close> on float64: every comparison with NaN is false.\<close>

fun f64_ge :: "float64 \<Rightarrow> float64 \<Rightarrow> bool" where
  "f64_ge NaN _ = False"
| "f64_ge _ NaN = False"
| "f64_ge PInf _ = True"
| "f64_ge _ NInf = True"
| "f64_ge NInf _ = False"
| "f64_ge _ PInf = False"
| "f64_ge (Fin a) (Fin b) = (b \<le> a)"

fun f64_lt :: "float64 \<Rightarrow> float64 \<Rightarrow> bool" where
  "f64_lt NaN _ = False"
| "f64_lt _ NaN = False"
| "f64_lt PInf _ = False"
| "f64_lt _ NInf = False"
| "f64_lt NInf _ = True"
| "f64_lt _ PInf = True"
| "f64_lt (Fin a) (Fin b) = (a < b)"

record SpeedTestResult =
  Latency :: Duration
  Jitter :: Duration
  DownloadSpeed :: float64
  UploadSpeed :: float64
  ServerName :: string
  ServerCountry :: string

record NetworkQuality =
  Streaming :: string
  Gaming :: string
  Webchat :: string

text \<open>
  \<open>Duration.Milliseconds\<close> is \<open>int64(d) / 1e6\<close>: Go's integer division, which truncates
  towards zero (\<open>sdiv\<close>), not HOL's flooring \<open>div\<close>.
\<close>

definition Milliseconds :: "Duration \<Rightarrow> int" where
  "Milliseconds d = sint d sdiv 1000000"

section \<open>Scoring\<close>

text \<open>
  The three score functions add to a local \<open>score\<close> of Go type \<open>int\<close>, starting at 0.
  The sum stays far below the range of the machine integer (at most 100), so an \<open>int\<close>
  models it without wrap-around. Each \<open>if\<close>/\<open>else if\<close> chain is kept in the source's
  order.
\<close>

definition calculateStreamingScore :: "SpeedTestResult \<Rightarrow> int" where
  "calculateStreamingScore result =
    (let score = 0;
         score = (if f64_ge (DownloadSpeed result) (Fin 25) then score + 40
                  else if f64_ge (DownloadSpeed result) (Fin 10) then score + 30
                  else if f64_ge (DownloadSpeed result) (Fin 5) then score + 20
                  else if f64_ge (DownloadSpeed result) (Fin 2) then score + 10
                  else score);
         latencyMs = Milliseconds (Latency result);
         score = (if latencyMs \<le> 20 then score + 30
                  else if latencyMs \<le> 50 then score + 20
                  else if latencyMs \<le> 100 then score + 10
                  else score);
         jitterMs = Milliseconds (Jitter result);
         score = (if jitterMs \<le> 5 then score + 20
                  else if jitterMs \<le> 15 then score + 10
                  else score);
         score = (if f64_ge (UploadSpeed result) (Fin 5) then score + 10
                  else if f64_ge (UploadSpeed result) (Fin 2) then score + 5
                  else score)
     in score)"

definition calculateGamingScore :: "SpeedTestResult \<Rightarrow> int" where
  "calculateGamingScore result =
    (let score = 0;
         latencyMs = Milliseconds (Latency result);
         score = (if latencyMs \<le> 10 then score + 40
                  else if latencyMs \<le> 20 then score + 30
                  else if latencyMs \<le> 50 then score + 20
                  else if latencyMs \<le> 100 then score + 10
                  else score);
         jitterMs = Milliseconds (Jitter result);
         score = (if jitterMs \<le> 2 then score + 30
                  else if jitterMs \<le> 5 then score + 20
                  else if jitterMs \<le> 10 then score + 10
                  else score);
         score = (if f64_ge (DownloadSpeed result) (Fin 10) then score + 20
                  else if f64_ge (DownloadSpeed result) (Fin 5) then score + 15
                  else if f64_ge (DownloadSpeed result) (Fin 2) then score + 10
                  else score);
         score = (if f64_ge (UploadSpeed result) (Fin 5) then score + 10
                  else if f64_ge (UploadSpeed result) (Fin 2) then score + 5
                  else score)
     in score)"

definition calculateWebchatScore :: "SpeedTestResult \<Rightarrow> int" where
  "calculateWebchatScore result =
    (let score = 0;
         latencyMs = Milliseconds (Latency result);
         score = (if latencyMs \<le> 20 then score + 30
                  else if latencyMs \<le> 50 then score + 20
                  else if latencyMs \<le> 100 then score + 10
                  else score);
         jitterMs = Milliseconds (Jitter result);
         score = (if jitterMs \<le> 5 then score + 25
                  else if jitterMs \<le> 15 then score + 15
                  else if jitterMs \<le> 30 then score + 5
                  else score);
         score = (if f64_ge (UploadSpeed result) (Fin 5) then score + 25
                  else if f64_ge (UploadSpeed result) (Fin 2) then score + 15
                  else if f64_ge (UploadSpeed result) (Fin 1) then score + 10
                  else score);
         score = (if f64_ge (DownloadSpeed result) (Fin 5) then score + 20
                  else if f64_ge (DownloadSpeed result) (Fin 2) then score + 10
                  else score)
     in score)"

definition getQualityLabel :: "int \<Rightarrow> string" where
  "getQualityLabel score =
    (if score \<ge> 80 then ''Great''
     else if score \<ge> 60 then ''Good''
     else if score \<ge> 40 then ''Average''
     else if score \<ge> 20 then ''Poor''
     else ''Bad'')"

definition calculateNetworkQuality :: "SpeedTestResult \<Rightarrow> NetworkQuality" where
  "calculateNetworkQuality result =
    (let streamingScore = calculateStreamingScore result;
         gamingScore = calculateGamingScore result;
         webchatScore = calculateWebchatScore result
     in \<lparr>Streaming = getQualityLabel streamingScore,
         Gaming = getQualityLabel gamingScore,
         Webchat = getQualityLabel webchatScore\<rparr>)"

section \<open>Floating-point arithmetic of the jitter computation\<close>

text \<open>
  The latency phase computes \<open>int64(math.Sqrt(float64(variance) / float64(len)))\<close>.
  IEEE 754 binary64 conversion, division and square root are correctly rounded (to
  nearest, ties to even), so each is the exact rational or real result, rounded. The
  definitions below compute that rounding on rationals.
\<close>

definition pow2 :: "int \<Rightarrow> rat" where
  "pow2 e = (if 0 \<le> e then 2 ^ nat e else 1 / 2 ^ nat (- e))"

text \<open>The binary exponent of a positive rational: \<open>pow2 (ilog2 q) \<le> q < pow2 (ilog2 q + 1)\<close>.\<close>

definition ilog2 :: "rat \<Rightarrow> int" where
  "ilog2 q = (if 1 \<le> q then bitlen \<lfloor>q\<rfloor> - 1 else - bitlen (\<lceil>1 / q\<rceil> - 1))"

definition nearest_even :: "rat \<Rightarrow> int" where
  "nearest_even x =
     (let f = \<lfloor>x\<rfloor>; r = x - of_int f
      in if r < 1 / 2 then f else if 1 / 2 < r then f + 1 else if even f then f else f + 1)"

text \<open>
  Rounding a rational to binary64: 53 significant bits, the spacing of subnormal numbers
  below \<open>2 ^ -1022\<close>, and overflow to an infinity from \<open>2 ^ 1024\<close> on.
\<close>

definition round_f64 :: "rat \<Rightarrow> float64" where
  "round_f64 q =
     (if q = 0 then Fin 0
      else let a = \<bar>q\<bar>;
               e = max (ilog2 a) (- 1022);
               u = pow2 (e - 52);
               v = of_int (nearest_even (a / u)) * u
           in if pow2 1024 \<le> v then (if 0 < q then PInf else NInf) else Fin (sgn q * v))"

text \<open>The integer square root, rounded down, by its binary digits.\<close>

function isqrt :: "int \<Rightarrow> int" where
  "isqrt n =
     (if n < 2 then (if n < 0 then 0 else n)
      else let r = 2 * isqrt (n div 4) in if (r + 1) * (r + 1) \<le> n then r + 1 else r)"
  by pat_completeness auto
termination
  by (relation "measure nat") auto

declare isqrt.simps [simp del]

text \<open>
  The binary64 number nearest to the square root of a positive binary64 number \<open>q\<close>:
  with \<open>u\<close> the spacing of the binary64 numbers around the root, \<open>f * u\<close> is the root
  rounded down, and the comparison of \<open>q\<close> with the square of the midpoint decides
  between \<open>f * u\<close> and \<open>(f + 1) * u\<close>. The root of a binary64 number is in the normal
  range, so no clamping of the exponent is needed.
\<close>

definition sqrt_nearest :: "rat \<Rightarrow> rat" where
  "sqrt_nearest q =
     (let e = ilog2 q div 2;
          u = pow2 (e - 52);
          f = isqrt \<lfloor>q / (u * u)\<rfloor>;
          mid = (2 * of_int f + 1) * u / 2;
          m = (if q < mid * mid then f else if mid * mid < q then f + 1
               else if even f then f else f + 1)
      in of_int m * u)"

text \<open>\<open>math.Sqrt\<close>: NaN for a negative argument and for NaN, the argument itself for +Inf and 0.\<close>

fun f64_sqrt :: "float64 \<Rightarrow> float64" where
  "f64_sqrt NaN = NaN"
| "f64_sqrt PInf = PInf"
| "f64_sqrt NInf = NaN"
| "f64_sqrt (Fin q) = (if q < 0 then NaN else if q = 0 then Fin 0 else Fin (sqrt_nearest q))"

text \<open>
  The float64 quotient \<open>x / y\<close>. A zero divisor is read as +0, the only zero that the
  conversion of an integer yields.
\<close>

fun f64_div :: "float64 \<Rightarrow> float64 \<Rightarrow> float64" where
  "f64_div NaN _ = NaN"
| "f64_div _ NaN = NaN"
| "f64_div (Fin a) (Fin b) =
     (if b = 0 then (if a = 0 then NaN else if 0 < a then PInf else NInf)
      else round_f64 (a / b))"
| "f64_div (Fin a) _ = Fin 0"
| "f64_div PInf (Fin b) = (if 0 \<le> b then PInf else NInf)"
| "f64_div NInf (Fin b) = (if 0 \<le> b then NInf else PInf)"
| "f64_div _ _ = NaN"

text \<open>\<open>float64(x)\<close> for an \<open>int64\<close> and for a Go \<open>int\<close> such as \<open>len(latencies)\<close>.\<close>

definition f64_of_int64 :: "int64 \<Rightarrow> float64" where
  "f64_of_int64 x = round_f64 (of_int (sint x))"

definition f64_of_len :: "nat \<Rightarrow> float64" where
  "f64_of_len n = round_f64 (of_nat n)"

text \<open>
  \<open>int64(x)\<close> for a float64 truncates towards zero. When the value is not representable
  (NaN, an infinity, out of range) Go leaves the result to the implementation; the
  parameter \<open>impl\<close> is what the platform returns then.
\<close>

definition int64_of_f64 :: "(float64 \<Rightarrow> int64) \<Rightarrow> float64 \<Rightarrow> int64" where
  "int64_of_f64 impl x =
     (case x of
        Fin q \<Rightarrow>
          (let t = (if 0 \<le> q then \<lfloor>q\<rfloor> else \<lceil>q\<rceil>)
           in if - (2 ^ 63) \<le> t \<and> t < 2 ^ 63 then word_of_int t else impl x)
      | _ \<Rightarrow> impl x)"

section \<open>The speed test\<close>

text \<open>
  The fields of the library's \<open>speedtest.Server\<close> that \<open>RunSpeedTest\<close> reads or writes.
  \<open>SLatency\<close> and \<open>SJitter\<close> are its fields \<open>Latency\<close> and \<open>Jitter\<close>, named apart from
  the fields of the result. \<open>DLSpeed\<close> and \<open>ULSpeed\<close> hold what \<open>DLSpeed.Mbps()\<close> and
  \<open>ULSpeed.Mbps()\<close> return.
\<close>

record Server =
  Name :: string
  Country :: string
  SLatency :: Duration
  SJitter :: Duration
  DLSpeed :: float64
  ULSpeed :: float64

text \<open>
  The library calls are modelled by their outcomes: an error (\<open>Inl\<close> of its message) or
  the value returned. \<open>DownloadTest\<close> and \<open>UploadTest\<close> return the speed that they
  store in the server. \<open>conv\<close> is the platform's float-to-integer conversion of
  unrepresentable values.
\<close>

record World =
  FetchServers :: "string + Server list"
  FindServer :: "Server list \<Rightarrow> string + Server list"
  TCPPing :: "Server \<Rightarrow> string + int64 list"
  DownloadTest :: "Server \<Rightarrow> string + float64"
  UploadTest :: "Server \<Rightarrow> string + float64"
  conv :: "float64 \<Rightarrow> int64"

datatype call = CallFetchServers | CallFindServer | CallTCPPing | CallDownloadTest
  | CallUploadTest

definition Nanosecond :: Duration where
  "Nanosecond = 1"

definition Microsecond :: Duration where
  "Microsecond = 1000 * Nanosecond"

text \<open>Go's \<open>/\<close> on \<open>int64\<close> (for a divisor other than 0) truncates towards zero.\<close>

definition int64_div :: "int64 \<Rightarrow> int64 \<Rightarrow> int64" where
  "int64_div a b = word_of_int (sint a sdiv sint b)"

text \<open>
  The two loops over the samples, and the values computed from them. Sums and products
  are \<open>int64\<close> operations and wrap around. A Go slice has fewer than \<open>2 ^ 63\<close> elements,
  so \<open>int64(len(latencies))\<close> is the length.
\<close>

definition sum_latencies :: "int64 list \<Rightarrow> int64" where
  "sum_latencies latencies = foldl (\<lambda>sum lat. sum + lat) 0 latencies"

definition avgLatency :: "int64 list \<Rightarrow> int64" where
  "avgLatency latencies =
     int64_div (sum_latencies latencies) (word_of_nat (length latencies))"

definition variance :: "int64 list \<Rightarrow> int64" where
  "variance latencies =
     foldl (\<lambda>variance lat. let diff = lat - avgLatency latencies in variance + diff * diff)
       0 latencies"

definition jitterValue :: "(float64 \<Rightarrow> int64) \<Rightarrow> int64 list \<Rightarrow> int64" where
  "jitterValue impl latencies =
     int64_of_f64 impl
       (f64_sqrt (f64_div (f64_of_int64 (variance latencies))
          (f64_of_len (length latencies))))"

text \<open>The body of the closure passed to the second \<open>WithSpinner\<close>, after a successful probe.\<close>

definition store_latency_jitter :: "(float64 \<Rightarrow> int64) \<Rightarrow> int64 list \<Rightarrow> Server \<Rightarrow> Server" where
  "store_latency_jitter impl latencies server =
     (if length latencies > 0 then
        let server = (if 1000000 < sint (avgLatency latencies)
                      then server\<lparr>SLatency := avgLatency latencies * Nanosecond\<rparr>
                      else server\<lparr>SLatency := avgLatency latencies * Microsecond\<rparr>);
            server = (if 1000000 < sint (avgLatency latencies)
                      then server\<lparr>SJitter := jitterValue impl latencies * Nanosecond\<rparr>
                      else server\<lparr>SJitter := jitterValue impl latencies * Microsecond\<rparr>)
        in server
      else server)"

definition latency_test :: "World \<Rightarrow> Server \<Rightarrow> string + Server" where
  "latency_test w server =
     (case TCPPing w server of
        Inl err \<Rightarrow> Inl err
      | Inr latencies \<Rightarrow> Inr (store_latency_jitter (conv w) latencies server))"

text \<open>
  \<open>RunSpeedTest\<close> returns Go's triple of a result pointer, a quality pointer and an
  error, each of which may be nil (\<open>None\<close>), together with the library calls it made, in
  order. \<open>WithSpinner\<close> hands back the error of the function it runs, so each wrapped
  phase is the call itself. \<open>fmt.Errorf\<close> with \<open>%v\<close> appends the message of the error.
\<close>

type_synonym outcome = "SpeedTestResult option \<times> NetworkQuality option \<times> string option"

definition RunSpeedTest :: "World \<Rightarrow> outcome \<times> call list" where
  "RunSpeedTest w =
     (case FetchServers w of
        Inl err \<Rightarrow>
          ((None, None, Some (''failed to fetch server list: '' @ err)), [CallFetchServers])
      | Inr servers \<Rightarrow>
     (case FindServer w servers of
        Inl err \<Rightarrow>
          ((None, None, Some (''failed to find servers: '' @ err)),
           [CallFetchServers, CallFindServer])
      | Inr targets \<Rightarrow>
     (case targets of
        [] \<Rightarrow> ((None, None, Some ''no servers found''), [CallFetchServers, CallFindServer])
      | server # _ \<Rightarrow>
     (case latency_test w server of
        Inl err \<Rightarrow>
          ((None, None, Some (''latency test failed: '' @ err)),
           [CallFetchServers, CallFindServer, CallTCPPing])
      | Inr server \<Rightarrow>
     (case DownloadTest w server of
        Inl err \<Rightarrow>
          ((None, None, Some (''download test failed: '' @ err)),
           [CallFetchServers, CallFindServer, CallTCPPing, CallDownloadTest])
      | Inr dl \<Rightarrow>
     (case UploadTest w (server\<lparr>DLSpeed := dl\<rparr>) of
        Inl err \<Rightarrow>
          ((None, None, Some (''upload test failed: '' @ err)),
           [CallFetchServers, CallFindServer, CallTCPPing, CallDownloadTest, CallUploadTest])
      | Inr ul \<Rightarrow>
          (let server = server\<lparr>DLSpeed := dl, ULSpeed := ul\<rparr>;
               result = \<lparr>Latency = SLatency server, Jitter = SJitter server,
                         DownloadSpeed = DLSpeed server, UploadSpeed = ULSpeed server,
                         ServerName = Name server, ServerCountry = Country server\<rparr>;
               quality = calculateNetworkQuality result
           in ((Some result, Some quality, None),
               [CallFetchServers, CallFindServer, CallTCPPing, CallDownloadTest,
                CallUploadTest]))))))))"

section \<open>The spinner\<close>

text \<open>
  One call of \<open>WithSpinner(message, fn)\<close> runs three goroutines: the caller, the render
  loop started by \<open>Spinner.Start\<close>, and the goroutine that runs \<open>fn\<close>. The model is a
  transition system over their program counters, interleaved statement by statement.

  The caller: \<open>MStart\<close> is before \<open>spinner.Start(message)\<close>, \<open>MSpawn\<close> before the
  \<open>go\<close> statement that runs \<open>fn\<close>, \<open>MWaitErr\<close> at \<open>err := <-errChan\<close>. The
  remaining points carry the received \<open>err\<close> (\<open>None\<close> is nil): \<open>MSendStop\<close> at
  \<open>s.stop <- true\<close> in \<open>Stop\<close>, \<open>MRecvDone\<close> at \<open><-s.done\<close>, \<open>MClear\<close> before the
  \<open>fmt.Print\<close> that clears the line, \<open>MReturned\<close> after \<open>return err\<close>.

  The render loop: \<open>RSelect\<close> at the \<open>select\<close>, \<open>RPrint\<close>, \<open>RAdvance\<close> and \<open>RSleep\<close> at the
  three statements of the \<open>default\<close> case, \<open>RSendDone\<close> at \<open>s.done <- true\<close>,
  \<open>RReturned\<close> after its \<open>return\<close>, and \<open>RSigSendStop\<close> at the \<open>s.stop <- true\<close> of the
  \<open>s.Stop()\<close> that the signal case calls.
\<close>

datatype main_pc = MStart | MSpawn | MWaitErr | MSendStop "string option"
  | MRecvDone "string option" | MClear "string option" | MReturned "string option"

datatype render_pc = RNotStarted | RSelect | RPrint | RAdvance | RSleep | RSendDone
  | RReturned | RSigSendStop

datatype action_pc = ANotStarted | ARun | ADone

text \<open>
  What is written to the terminal: \<open>Frame i message\<close> is the \<open>Printf\<close> of a carriage
  return, \<open>frames[i]\<close>, a space and the message; \<open>ClearLine\<close> is the \<open>Print\<close> of a carriage
  return and the escape sequence that erases the line.
\<close>

datatype event = Frame nat string | ClearLine

text \<open>
  \<open>errChan\<close> is the buffered channel of capacity 1 (\<open>None\<close> when empty), \<open>sigChan\<close> tells
  whether a signal is waiting in the buffered signal channel, \<open>out\<close> is the terminal
  output so far. The channels \<open>stop\<close> and \<open>done\<close> are unbuffered and hold nothing: a send
  and a receive on them happen together.
\<close>

record spinner_state =
  mpc :: main_pc
  rpc :: render_pc
  apc :: action_pc
  pos :: nat
  errChan :: "string option option"
  sigChan :: bool
  out :: "event list"

definition init_state :: spinner_state where
  "init_state = \<lparr>mpc = MStart, rpc = RNotStarted, apc = ANotStarted, pos = 0,
     errChan = None, sigChan = False, out = []\<rparr>"

text \<open>
  The steps, for a call with the given message whose \<open>fn\<close> returns \<open>fn_err\<close> if it
  returns. \<open>Default\<close> is possible whenever the loop is at its \<open>select\<close>: the sender on
  \<open>stop\<close> may not have arrived yet. \<open>Stop\<close> and \<open>Done\<close> are the two rendezvous of
  \<open>Spinner.Stop\<close> with the loop. A signal may arrive at any time once \<open>Start\<close> has
  registered the channel. After \<open>TakeSignal\<close> the loop is inside \<open>s.Stop()\<close>, sending on
  \<open>stop\<close>, and the only receive on \<open>stop\<close> is the loop's own \<open>select\<close>: no step leaves
  \<open>RSigSendStop\<close>.
\<close>

inductive WithSpinner_step ::
  "string \<Rightarrow> string option \<Rightarrow> spinner_state \<Rightarrow> spinner_state \<Rightarrow> bool"
  for message :: string and fn_err :: "string option"
where
  Start: "mpc s = MStart \<Longrightarrow>
    WithSpinner_step message fn_err s (s\<lparr>mpc := MSpawn, rpc := RSelect\<rparr>)"
| Spawn: "mpc s = MSpawn \<Longrightarrow>
    WithSpinner_step message fn_err s (s\<lparr>mpc := MWaitErr, apc := ARun\<rparr>)"
| Action: "apc s = ARun \<Longrightarrow> errChan s = None \<Longrightarrow>
    WithSpinner_step message fn_err s (s\<lparr>apc := ADone, errChan := Some fn_err\<rparr>)"
| RecvErr: "mpc s = MWaitErr \<Longrightarrow> errChan s = Some err \<Longrightarrow>
    WithSpinner_step message fn_err s (s\<lparr>mpc := MSendStop err, errChan := None\<rparr>)"
| Default: "rpc s = RSelect \<Longrightarrow>
    WithSpinner_step message fn_err s (s\<lparr>rpc := RPrint\<rparr>)"
| Print: "rpc s = RPrint \<Longrightarrow>
    WithSpinner_step message fn_err s
      (s\<lparr>rpc := RAdvance, out := out s @ [Frame (pos s) message]\<rparr>)"
| Advance: "rpc s = RAdvance \<Longrightarrow>
    WithSpinner_step message fn_err s (s\<lparr>rpc := RSleep, pos := (pos s + 1) mod 10\<rparr>)"
| Sleep: "rpc s = RSleep \<Longrightarrow>
    WithSpinner_step message fn_err s (s\<lparr>rpc := RSelect\<rparr>)"
| Stop: "mpc s = MSendStop err \<Longrightarrow> rpc s = RSelect \<Longrightarrow>
    WithSpinner_step message fn_err s (s\<lparr>mpc := MRecvDone err, rpc := RSendDone\<rparr>)"
| Done: "mpc s = MRecvDone err \<Longrightarrow> rpc s = RSendDone \<Longrightarrow>
    WithSpinner_step message fn_err s (s\<lparr>mpc := MClear err, rpc := RReturned\<rparr>)"
| Clear: "mpc s = MClear err \<Longrightarrow>
    WithSpinner_step message fn_err s
      (s\<lparr>mpc := MReturned err, out := out s @ [ClearLine]\<rparr>)"
| Signal: "rpc s \<noteq> RNotStarted \<Longrightarrow>
    WithSpinner_step message fn_err s (s\<lparr>sigChan := True\<rparr>)"
| TakeSignal: "rpc s = RSelect \<Longrightarrow> sigChan s \<Longrightarrow>
    WithSpinner_step message fn_err s (s\<lparr>rpc := RSigSendStop, sigChan := False\<rparr>)"

inductive reachable :: "string \<Rightarrow> string option \<Rightarrow> spinner_state \<Rightarrow> bool"
  for message :: string and fn_err :: "string option"
where
  init: "reachable message fn_err init_state"
| after: "reachable message fn_err s \<Longrightarrow> WithSpinner_step message fn_err s s' \<Longrightarrow>
    reachable message fn_err s'"

text \<open>The invariant of the reachable states, by the caller's program counter.\<close>

definition rendering :: "spinner_state \<Rightarrow> bool" where
  "rendering s \<longleftrightarrow> rpc s \<in> {RSelect, RPrint, RAdvance, RSleep, RSigSendStop}"

definition spinner_inv :: "string option \<Rightarrow> spinner_state \<Rightarrow> bool" where
  "spinner_inv fn_err s \<longleftrightarrow>
     (errChan s = None \<or> errChan s = Some fn_err) \<and> pos s < 10 \<and>
     (case mpc s of
        MStart \<Rightarrow> rpc s = RNotStarted \<and> out s = []
      | MSpawn \<Rightarrow> rendering s \<and> ClearLine \<notin> set (out s)
      | MWaitErr \<Rightarrow> rendering s \<and> ClearLine \<notin> set (out s)
      | MSendStop err \<Rightarrow> err = fn_err \<and> rendering s \<and> ClearLine \<notin> set (out s)
      | MRecvDone err \<Rightarrow> err = fn_err \<and> rpc s = RSendDone \<and> ClearLine \<notin> set (out s)
      | MClear err \<Rightarrow> err = fn_err \<and> rpc s = RReturned \<and> ClearLine \<notin> set (out s)
      | MReturned err \<Rightarrow> err = fn_err \<and> rpc s = RReturned \<and>
          (\<exists>frames. out s = frames @ [ClearLine] \<and> ClearLine \<notin> set frames))"

section \<open>The scoring policy as the specification words it\<close>

text \<open>
  The specification describes each contribution as an ordered table of (threshold,
  points) pairs, scanned top-down, where the first matching row wins and no match gives 0.
  Throughput rows match when the metric is at least the threshold, latency and jitter
  rows when it is at most the threshold (in milliseconds).
\<close>

definition scan_at_least :: "(rat \<times> int) list \<Rightarrow> float64 \<Rightarrow> int" where
  "scan_at_least table x =
     (case find (\<lambda>(t, p). f64_ge x (Fin t)) table of None \<Rightarrow> 0 | Some (t, p) \<Rightarrow> p)"

definition scan_at_most :: "(rat \<times> int) list \<Rightarrow> rat \<Rightarrow> int" where
  "scan_at_most table x =
     (case find (\<lambda>(t, p). x \<le> t) table of None \<Rightarrow> 0 | Some (t, p) \<Rightarrow> p)"

record threshold_tables =
  download_table :: "(rat \<times> int) list"
  latency_table :: "(rat \<times> int) list"
  jitter_table :: "(rat \<times> int) list"
  upload_table :: "(rat \<times> int) list"

definition streaming_tables :: threshold_tables where
  "streaming_tables =
     \<lparr>download_table = [(25, 40), (10, 30), (5, 20), (2, 10)],
      latency_table = [(20, 30), (50, 20), (100, 10)],
      jitter_table = [(5, 20), (15, 10)],
      upload_table = [(5, 10), (2, 5)]\<rparr>"

definition gaming_tables :: threshold_tables where
  "gaming_tables =
     \<lparr>download_table = [(10, 20), (5, 15), (2, 10)],
      latency_table = [(10, 40), (20, 30), (50, 20), (100, 10)],
      jitter_table = [(2, 30), (5, 20), (10, 10)],
      upload_table = [(5, 10), (2, 5)]\<rparr>"

definition rtc_tables :: threshold_tables where
  "rtc_tables =
     \<lparr>download_table = [(5, 20), (2, 10)],
      latency_table = [(20, 30), (50, 20), (100, 10)],
      jitter_table = [(5, 25), (15, 15), (30, 5)],
      upload_table = [(5, 25), (2, 15), (1, 10)]\<rparr>"

text \<open>
  Two readings of "the latency in milliseconds" of a \<open>Duration\<close>: the exact
  quotient, and the whole milliseconds that \<open>Duration.Milliseconds\<close> returns.
\<close>

definition exact_ms :: "Duration \<Rightarrow> rat" where
  "exact_ms d = of_int (sint d) / 1000000"

definition whole_ms :: "Duration \<Rightarrow> rat" where
  "whole_ms d = of_int (Milliseconds d)"

definition table_score :: "(Duration \<Rightarrow> rat) \<Rightarrow> threshold_tables \<Rightarrow> SpeedTestResult \<Rightarrow> int" where
  "table_score ms tables result =
     scan_at_least (download_table tables) (DownloadSpeed result) +
     scan_at_most (latency_table tables) (ms (Latency result)) +
     scan_at_most (jitter_table tables) (ms (Jitter result)) +
     scan_at_least (upload_table tables) (UploadSpeed result)"

section \<open>Properties of the label mapping\<close>

text \<open>
  Claim C2. getQualityLabel is a total function of the score with inclusive cut points:
  a score of at least 80 is "Great", 60 to 79 is "Good", 40 to 59 is "Average", 20 to 39
  is "Poor" and at most 19 is "Bad"; the boundary scores 80, 79, 60 and 59 give "Great",
  "Good", "Good" and "Average". This holds for every integer, so in particular for every
  score in the interval from 0 to 100.
\<close>

theorem getQualityLabel_cut_points:
  "(80 \<le> s \<longrightarrow> getQualityLabel s = ''Great'') \<and>
   (60 \<le> s \<and> s \<le> 79 \<longrightarrow> getQualityLabel s = ''Good'') \<and>
   (40 \<le> s \<and> s \<le> 59 \<longrightarrow> getQualityLabel s = ''Average'') \<and>
   (20 \<le> s \<and> s \<le> 39 \<longrightarrow> getQualityLabel s = ''Poor'') \<and>
   (s \<le> 19 \<longrightarrow> getQualityLabel s = ''Bad'') \<and>
   getQualityLabel 80 = ''Great'' \<and> getQualityLabel 79 = ''Good'' \<and>
   getQualityLabel 60 = ''Good'' \<and> getQualityLabel 59 = ''Average''"
  by (simp add: getQualityLabel_def)

theorem getQualityLabel_cut_points_witness:
  "getQualityLabel 100 = ''Great'' \<and> getQualityLabel 65 = ''Good'' \<and>
   getQualityLabel 40 = ''Average'' \<and> getQualityLabel 39 = ''Poor'' \<and>
   getQualityLabel 0 = ''Bad''"
  using getQualityLabel_cut_points [of 100] getQualityLabel_cut_points [of 65]
    getQualityLabel_cut_points [of 40] getQualityLabel_cut_points [of 39]
    getQualityLabel_cut_points [of 0]
  by simp

section \<open>Helper facts\<close>

lemma sdiv_of_nonneg:
  fixes k c :: int
  shows "0 \<le> k \<Longrightarrow> 0 < c \<Longrightarrow> k sdiv c = k div c"
  by (cases "k = 0") (simp_all add: signed_divide_int_def)

lemma sdiv_of_neg:
  fixes k c :: int
  shows "k < 0 \<Longrightarrow> 0 < c \<Longrightarrow> k sdiv c = - ((- k) div c)"
  by (simp add: signed_divide_int_def)

lemma sdiv_pos_mono:
  fixes a b c :: int
  assumes "a \<le> b" and "0 < c"
  shows "a sdiv c \<le> b sdiv c"
proof -
  consider "0 \<le> a" | "a < 0" "0 \<le> b" | "b < 0" using assms by linarith
  then show ?thesis
  proof cases
    case 1
    then have "0 \<le> b" using assms by simp
    with 1 assms show ?thesis
      by (simp add: sdiv_of_nonneg zdiv_mono1)
  next
    case 2
    have "0 \<le> (- a) div c" using 2 assms
      by (simp add: pos_imp_zdiv_nonneg_iff)
    moreover have "0 \<le> b div c" using 2 assms
      by (simp add: pos_imp_zdiv_nonneg_iff)
    ultimately show ?thesis using 2 assms
      by (simp add: sdiv_of_nonneg sdiv_of_neg)
  next
    case 3
    then have "a < 0" using assms by simp
    have "(- b) div c \<le> (- a) div c" using assms by (intro zdiv_mono1) simp_all
    with 3 \<open>a < 0\<close> assms show ?thesis
      by (simp add: sdiv_of_neg)
  qed
qed

lemma Milliseconds_mono: "sint a < sint b \<Longrightarrow> Milliseconds a \<le> Milliseconds b"
  unfolding Milliseconds_def by (rule sdiv_pos_mono) simp_all

lemma f64_ge_mono: "f64_lt y x \<Longrightarrow> f64_ge y (Fin c) \<Longrightarrow> f64_ge x (Fin c)"
  by (cases x; cases y) simp_all

lemma calculateStreamingScore_sum:
  "calculateStreamingScore r =
     (if f64_ge (DownloadSpeed r) (Fin 25) then 40
      else if f64_ge (DownloadSpeed r) (Fin 10) then 30
      else if f64_ge (DownloadSpeed r) (Fin 5) then 20
      else if f64_ge (DownloadSpeed r) (Fin 2) then 10 else 0) +
     (if Milliseconds (Latency r) \<le> 20 then 30
      else if Milliseconds (Latency r) \<le> 50 then 20
      else if Milliseconds (Latency r) \<le> 100 then 10 else 0) +
     (if Milliseconds (Jitter r) \<le> 5 then 20
      else if Milliseconds (Jitter r) \<le> 15 then 10 else 0) +
     (if f64_ge (UploadSpeed r) (Fin 5) then 10
      else if f64_ge (UploadSpeed r) (Fin 2) then 5 else 0)"
  by (simp add: calculateStreamingScore_def Let_def)


lemma calculateGamingScore_sum:
  "calculateGamingScore r =
     (if Milliseconds (Latency r) \<le> 10 then 40
      else if Milliseconds (Latency r) \<le> 20 then 30
      else if Milliseconds (Latency r) \<le> 50 then 20
      else if Milliseconds (Latency r) \<le> 100 then 10 else 0) +
     (if Milliseconds (Jitter r) \<le> 2 then 30
      else if Milliseconds (Jitter r) \<le> 5 then 20
      else if Milliseconds (Jitter r) \<le> 10 then 10 else 0) +
     (if f64_ge (DownloadSpeed r) (Fin 10) then 20
      else if f64_ge (DownloadSpeed r) (Fin 5) then 15
      else if f64_ge (DownloadSpeed r) (Fin 2) then 10 else 0) +
     (if f64_ge (UploadSpeed r) (Fin 5) then 10
      else if f64_ge (UploadSpeed r) (Fin 2) then 5 else 0)"
  by (simp add: calculateGamingScore_def Let_def)

lemma calculateWebchatScore_sum:
  "calculateWebchatScore r =
     (if Milliseconds (Latency r) \<le> 20 then 30
      else if Milliseconds (Latency r) \<le> 50 then 20
      else if Milliseconds (Latency r) \<le> 100 then 10 else 0) +
     (if Milliseconds (Jitter r) \<le> 5 then 25
      else if Milliseconds (Jitter r) \<le> 15 then 15
      else if Milliseconds (Jitter r) \<le> 30 then 5 else 0) +
     (if f64_ge (UploadSpeed r) (Fin 5) then 25
      else if f64_ge (UploadSpeed r) (Fin 2) then 15
      else if f64_ge (UploadSpeed r) (Fin 1) then 10 else 0) +
     (if f64_ge (DownloadSpeed r) (Fin 5) then 20
      else if f64_ge (DownloadSpeed r) (Fin 2) then 10 else 0)"
  by (simp add: calculateWebchatScore_def Let_def)

lemma sum4_mono:
  fixes a b c d :: int
  shows "a' \<le> a \<Longrightarrow> b' \<le> b \<Longrightarrow> c' \<le> c \<Longrightarrow> d' \<le> d \<Longrightarrow>
    a' + b' + c' + d' \<le> a + b + c + d"
  by simp

lemma sum4_range:
  fixes a b c d :: int
  shows "0 \<le> a \<and> a \<le> ma \<Longrightarrow> 0 \<le> b \<and> b \<le> mb \<Longrightarrow> 0 \<le> c \<and> c \<le> mc \<Longrightarrow>
    0 \<le> d \<and> d \<le> md \<Longrightarrow> 0 \<le> a + b + c + d \<and> a + b + c + d \<le> ma + mb + mc + md"
  by simp

lemmas score_sums =
  calculateStreamingScore_sum calculateGamingScore_sum calculateWebchatScore_sum

lemma score_cases:
  assumes "score \<in> {calculateStreamingScore, calculateGamingScore, calculateWebchatScore}"
  obtains "score = calculateStreamingScore" | "score = calculateGamingScore"
    | "score = calculateWebchatScore"
  using assms by blast

lemma latency_mono:
  assumes "score \<in> {calculateStreamingScore, calculateGamingScore, calculateWebchatScore}"
    and "sint (Latency r) < sint l"
  shows "score (r\<lparr>Latency := l\<rparr>) \<le> score r"
proof -
  have m: "Milliseconds (Latency r) \<le> Milliseconds l"
    using assms(2) by (rule Milliseconds_mono)
  from assms(1) show ?thesis
  proof (cases rule: score_cases)
    case 1
    show ?thesis unfolding 1 score_sums by (rule sum4_mono) (use m in simp_all)
  next
    case 2
    show ?thesis unfolding 2 score_sums by (rule sum4_mono) (use m in simp_all)
  next
    case 3
    show ?thesis unfolding 3 score_sums by (rule sum4_mono) (use m in simp_all)
  qed
qed

lemma jitter_mono:
  assumes "score \<in> {calculateStreamingScore, calculateGamingScore, calculateWebchatScore}"
    and "sint (Jitter r) < sint j"
  shows "score (r\<lparr>Jitter := j\<rparr>) \<le> score r"
proof -
  have m: "Milliseconds (Jitter r) \<le> Milliseconds j"
    using assms(2) by (rule Milliseconds_mono)
  from assms(1) show ?thesis
  proof (cases rule: score_cases)
    case 1
    show ?thesis unfolding 1 score_sums by (rule sum4_mono) (use m in simp_all)
  next
    case 2
    show ?thesis unfolding 2 score_sums by (rule sum4_mono) (use m in simp_all)
  next
    case 3
    show ?thesis unfolding 3 score_sums by (rule sum4_mono) (use m in simp_all)
  qed
qed

lemma download_mono:
  assumes "score \<in> {calculateStreamingScore, calculateGamingScore, calculateWebchatScore}"
    and "f64_lt d (DownloadSpeed r)"
  shows "score (r\<lparr>DownloadSpeed := d\<rparr>) \<le> score r"
proof -
  note m = f64_ge_mono [OF assms(2)]
  from assms(1) show ?thesis
  proof (cases rule: score_cases)
    case 1
    show ?thesis unfolding 1 score_sums by (rule sum4_mono) (use m in simp_all)
  next
    case 2
    show ?thesis unfolding 2 score_sums by (rule sum4_mono) (use m in simp_all)
  next
    case 3
    show ?thesis unfolding 3 score_sums by (rule sum4_mono) (use m in simp_all)
  qed
qed

lemma upload_mono:
  assumes "score \<in> {calculateStreamingScore, calculateGamingScore, calculateWebchatScore}"
    and "f64_lt u (UploadSpeed r)"
  shows "score (r\<lparr>UploadSpeed := u\<rparr>) \<le> score r"
proof -
  note m = f64_ge_mono [OF assms(2)]
  from assms(1) show ?thesis
  proof (cases rule: score_cases)
    case 1
    show ?thesis unfolding 1 score_sums by (rule sum4_mono) (use m in simp_all)
  next
    case 2
    show ?thesis unfolding 2 score_sums by (rule sum4_mono) (use m in simp_all)
  next
    case 3
    show ?thesis unfolding 3 score_sums by (rule sum4_mono) (use m in simp_all)
  qed
qed

section \<open>Facts about the latency computation\<close>

lemma sint_word_of_int_64:
  "- (2 ^ 63) \<le> k \<Longrightarrow> k < 2 ^ 63 \<Longrightarrow> sint (word_of_int k :: int64) = k"
  by (simp add: signed_of_int signed_take_bit_int_eq_self)

lemma foldl_add_word:
  "foldl (\<lambda>sum lat. sum + lat) a l = a + (word_of_int (\<Sum>x\<leftarrow>l. sint x) :: int64)"
  by (induction l arbitrary: a) (simp_all add: algebra_simps)

lemma sum_latencies_eq: "sum_latencies l = word_of_int (\<Sum>x\<leftarrow>l. sint x)"
  by (simp add: sum_latencies_def foldl_add_word)

lemma foldl_sq_word:
  "foldl (\<lambda>variance lat. let diff = lat - m in variance + diff * diff) a l =
     a + (word_of_int (\<Sum>x\<leftarrow>l. (sint x - sint m) * (sint x - sint m)) :: int64)"
  by (induction l arbitrary: a) (simp_all add: Let_def algebra_simps)

lemma variance_eq:
  "variance l =
     word_of_int (\<Sum>x\<leftarrow>l. (sint x - sint (avgLatency l)) * (sint x - sint (avgLatency l)))"
  by (simp add: variance_def foldl_sq_word)

lemma variance_no_overflow:
  assumes "(\<Sum>x\<leftarrow>l. (sint x - sint (avgLatency l)) * (sint x - sint (avgLatency l))) < 2 ^ 63"
  shows "0 \<le> sint (variance l)"
proof -
  let ?S = "\<Sum>x\<leftarrow>l. (sint x - sint (avgLatency l)) * (sint x - sint (avgLatency l))"
  have "0 \<le> ?S" by (rule sum_list_nonneg) auto
  then have "sint (word_of_int ?S :: int64) = ?S"
    using assms by (intro sint_word_of_int_64) simp_all
  then show ?thesis using \<open>0 \<le> ?S\<close> by (simp add: variance_eq)
qed

lemma sint_word_of_nat_64:
  "int n < 2 ^ 63 \<Longrightarrow> sint (word_of_nat n :: int64) = int n"
  using sint_word_of_int_64 [of "int n"] by simp

lemma sdiv_pos_bounds:
  fixes S n :: int
  assumes "0 < n"
  shows "min S 0 \<le> S sdiv n \<and> S sdiv n \<le> max S 0"
proof (cases "0 \<le> S")
  case True
  have "0 \<le> S div n" using True assms by (simp add: pos_imp_zdiv_nonneg_iff)
  moreover have "S div n \<le> S"
    using True int_div_le_self [of S n] by (cases "S = 0") simp_all
  ultimately show ?thesis using True assms by (simp add: sdiv_of_nonneg)
next
  case False
  then have neg: "S < 0" by simp
  have "0 \<le> (- S) div n" using neg assms by (simp add: pos_imp_zdiv_nonneg_iff)
  moreover have "(- S) div n \<le> - S"
    using neg int_div_le_self [of "- S" n] by simp
  ultimately show ?thesis using neg assms by (simp add: sdiv_of_neg)
qed

lemma avgLatency_true_mean:
  assumes "int (length l) < 2 ^ 63"
    and "- (2 ^ 63) \<le> (\<Sum>x\<leftarrow>l. sint x)" and "(\<Sum>x\<leftarrow>l. sint x) < 2 ^ 63"
    and "l \<noteq> []"
  shows "sint (avgLatency l) = (\<Sum>x\<leftarrow>l. sint x) sdiv int (length l)"
proof -
  let ?S = "\<Sum>x\<leftarrow>l. sint x" and ?n = "int (length l)"
  have n: "0 < ?n" using assms(4) by simp
  have S: "sint (sum_latencies l) = ?S"
    using assms(2,3) by (simp add: sum_latencies_eq sint_word_of_int_64)
  have N: "sint (word_of_nat (length l) :: int64) = ?n"
    using assms(1) by (rule sint_word_of_nat_64)
  have "- (2 ^ 63) \<le> ?S sdiv ?n \<and> ?S sdiv ?n < 2 ^ 63"
    using assms(2,3) sdiv_pos_bounds [OF n, of ?S] by linarith
  then show ?thesis
    by (simp add: avgLatency_def int64_div_def S N sint_word_of_int_64)
qed

section \<open>Facts about binary64 rounding\<close>

lemma pow2_powi: "pow2 e = 2 powi e"
  by (simp add: pow2_def power_int_def inverse_eq_divide power_one_over)

lemma pow2_pos: "0 < pow2 e"
  by (simp add: pow2_powi)

lemma pow2_add: "pow2 (a + b) = pow2 a * pow2 b"
  by (simp add: pow2_powi power_int_add)

lemma pow2_mono: "a \<le> b \<Longrightarrow> pow2 a \<le> pow2 b"
  by (simp add: pow2_powi power_int_increasing)

lemma pow2_nonpos_le_1: "e \<le> 0 \<Longrightarrow> pow2 e \<le> 1"
  using pow2_mono [of e 0] by (simp add: pow2_def)

lemma ilog2_le:
  assumes "0 < q"
  shows "pow2 (ilog2 q) \<le> q"
proof (cases "1 \<le> q")
  case True
  then have pos: "0 < \<lfloor>q\<rfloor>" by simp
  then have "1 \<le> bitlen \<lfloor>q\<rfloor>" by (simp add: bitlen_alt_def)
  moreover have "(2::int) ^ nat (bitlen \<lfloor>q\<rfloor> - 1) \<le> \<lfloor>q\<rfloor>"
    using bitlen_bounds [OF pos] by simp
  then have "(of_int ((2::int) ^ nat (bitlen \<lfloor>q\<rfloor> - 1)) :: rat) \<le> of_int \<lfloor>q\<rfloor>"
    by (simp only: of_int_le_iff)
  then have "(of_int ((2::int) ^ nat (bitlen \<lfloor>q\<rfloor> - 1)) :: rat) \<le> q"
    using of_int_floor_le [of q] by (rule order_trans)
  then have "(2::rat) ^ nat (bitlen \<lfloor>q\<rfloor> - 1) \<le> q"
    by simp
  ultimately show ?thesis using True by (simp add: ilog2_def pow2_def)
next
  case False
  let ?c = "\<lceil>1 / q\<rceil> - 1"
  have "1 < 1 / q" using False assms by simp
  then have "1 < \<lceil>1 / q\<rceil>" by (simp add: less_ceiling_iff)
  then have pos: "0 < ?c" by simp
  then have k: "1 \<le> bitlen ?c" by (simp add: bitlen_alt_def)
  have "?c < 2 ^ nat (bitlen ?c)" using bitlen_bounds [OF pos] by simp
  then have "\<lceil>1 / q\<rceil> \<le> 2 ^ nat (bitlen ?c)" by simp
  then have "(of_int \<lceil>1 / q\<rceil> :: rat) \<le> of_int (2 ^ nat (bitlen ?c))"
    by (simp only: of_int_le_iff)
  then have "1 / q \<le> (of_int (2 ^ nat (bitlen ?c)) :: rat)"
    using le_of_int_ceiling [of "1 / q"] by (rule order_trans [rotated])
  then have "1 / q \<le> 2 ^ nat (bitlen ?c)"
    by simp
  then have "1 / 2 ^ nat (bitlen ?c) \<le> q"
    using assms by (simp add: field_simps)
  then show ?thesis using False k by (simp add: ilog2_def pow2_def)
qed

lemma ilog2_nonneg: "1 \<le> q \<Longrightarrow> 0 \<le> ilog2 q"
proof -
  assume "1 \<le> q"
  then have "0 < \<lfloor>q\<rfloor>" by simp
  then have "1 \<le> bitlen \<lfloor>q\<rfloor>" by (simp add: bitlen_alt_def)
  then show ?thesis using \<open>1 \<le> q\<close> by (simp add: ilog2_def)
qed

lemma nearest_even_cases:
  obtains f where "f = \<lfloor>x\<rfloor>" and "of_int f \<le> x" and "x < of_int f + 1"
    and "nearest_even x = f \<and> x - of_int f \<le> 1 / 2 \<or>
         nearest_even x = f + 1 \<and> 1 / 2 \<le> x - of_int f"
proof -
  define f where "f = \<lfloor>x\<rfloor>"
  have "of_int f \<le> x" "x < of_int f + 1" unfolding f_def by linarith+
  moreover have "nearest_even x = f \<and> x - of_int f \<le> 1 / 2 \<or>
         nearest_even x = f + 1 \<and> 1 / 2 \<le> x - of_int f"
    unfolding nearest_even_def Let_def f_def [symmetric] by auto
  ultimately show thesis using that f_def by blast
qed

lemma nearest_even_bounds:
  "x - 1 / 2 \<le> of_int (nearest_even x) \<and> of_int (nearest_even x) \<le> x + 1"
proof -
  obtain f where "of_int f \<le> x" and "x < of_int f + 1"
    and "nearest_even x = f \<and> x - of_int f \<le> 1 / 2 \<or>
         nearest_even x = f + 1 \<and> 1 / 2 \<le> x - of_int f"
    by (rule nearest_even_cases)
  then show ?thesis by auto
qed

lemma nearest_even_nonneg:
  assumes "0 \<le> x"
  shows "0 \<le> nearest_even x"
proof -
  have "0 \<le> \<lfloor>x\<rfloor>" using assms by simp
  then show ?thesis by (simp add: nearest_even_def Let_def)
qed

lemma round_f64_spacing:
  assumes q: "0 < q"
  defines "u \<equiv> pow2 (max (ilog2 q) (- 1022) - 52)"
  shows "0 < u" and "u \<le> q \<or> u \<le> 1" and "1 \<le> q \<Longrightarrow> u \<le> q"
proof -
  show "0 < u" by (simp add: u_def pow2_pos)
  have le: "pow2 (ilog2 q - 52) \<le> q"
    using pow2_mono [of "ilog2 q - 52" "ilog2 q"] ilog2_le [OF q] by simp
  show "u \<le> q \<or> u \<le> 1"
  proof (cases "- 1022 \<le> ilog2 q")
    case True
    then show ?thesis using le by (simp add: u_def max_def)
  next
    case False
    then have "u = pow2 (- 1074)" by (simp add: u_def max_def)
    then show ?thesis using pow2_nonpos_le_1 [of "- 1074"] by simp
  qed
  show "u \<le> q" if "1 \<le> q"
  proof -
    have "0 \<le> ilog2 q" using that by (rule ilog2_nonneg)
    then show ?thesis using le by (simp add: u_def max_def)
  qed
qed

lemma round_f64_value:
  assumes q: "0 < q"
  defines "u \<equiv> pow2 (max (ilog2 q) (- 1022) - 52)"
  defines "v \<equiv> of_int (nearest_even (q / u)) * u"
  shows "round_f64 q = (if pow2 1024 \<le> v then PInf else Fin v)"
  using q by (simp add: round_f64_def Let_def u_def v_def)

lemma round_f64_bounds:
  assumes q: "0 < q"
  defines "u \<equiv> pow2 (max (ilog2 q) (- 1022) - 52)"
  defines "v \<equiv> of_int (nearest_even (q / u)) * u"
  shows "0 \<le> v" and "v \<le> 2 * q + 1" and "1 \<le> q \<Longrightarrow> q / 2 \<le> v"
proof -
  have u: "0 < u" "u \<le> q \<or> u \<le> 1" and u1: "1 \<le> q \<Longrightarrow> u \<le> q"
    unfolding u_def using round_f64_spacing [OF q] by blast+
  have "0 \<le> q / u" using q u(1) by simp
  then have "0 \<le> nearest_even (q / u)" by (rule nearest_even_nonneg)
  then show "0 \<le> v" using u(1) by (simp add: v_def)
  have "of_int (nearest_even (q / u)) \<le> q / u + 1"
    using nearest_even_bounds [of "q / u"] by simp
  then have "v \<le> (q / u + 1) * u"
    unfolding v_def using u(1) by (simp add: mult_right_mono)
  also have "\<dots> = q + u" using u(1) by (simp add: field_simps)
  finally have vu: "v \<le> q + u" .
  then show "v \<le> 2 * q + 1" using u(2) q by linarith
  show "q / 2 \<le> v" if "1 \<le> q"
  proof -
    have "q / u - 1 / 2 \<le> of_int (nearest_even (q / u))"
      using nearest_even_bounds [of "q / u"] by simp
    then have "(q / u - 1 / 2) * u \<le> v"
      unfolding v_def using u(1) by (simp add: mult_right_mono)
    moreover have "(q / u - 1 / 2) * u = q - u / 2" using u(1) by (simp add: field_simps)
    ultimately show ?thesis using u1 [OF that] u(1) by linarith
  qed
qed

lemma round_f64_nonneg_bounded:
  assumes "0 \<le> q" and "q \<le> 2 ^ 70"
  shows "\<exists>v. round_f64 q = Fin v \<and> 0 \<le> v \<and> v \<le> 2 * q + 1"
proof (cases "q = 0")
  case True
  then show ?thesis by (simp add: round_f64_def)
next
  case False
  then have q: "0 < q" using assms(1) by simp
  define v where "v = of_int (nearest_even (q / pow2 (max (ilog2 q) (- 1022) - 52))) *
    pow2 (max (ilog2 q) (- 1022) - 52)"
  have b: "0 \<le> v" "v \<le> 2 * q + 1"
    unfolding v_def using round_f64_bounds [OF q] by blast+
  have "(2::rat) ^ 71 + 1 < 2 ^ 1024" by simp
  moreover have "v \<le> 2 ^ 71 + 1" using b(2) assms(2) by simp
  ultimately have "v < pow2 1024" by (simp add: pow2_def)
  then have "round_f64 q = Fin v"
    using round_f64_value [OF q] by (simp add: v_def)
  then show ?thesis using b by simp
qed

lemma round_f64_ge_1:
  assumes "1 \<le> q"
  shows "round_f64 q = PInf \<or> (\<exists>v. round_f64 q = Fin v \<and> q / 2 \<le> v)"
proof -
  have q: "0 < q" using assms by simp
  show ?thesis
    using round_f64_value [OF q] round_f64_bounds(3) [OF q assms]
    by (simp split: if_splits)
qed

lemma isqrt_nonneg: "0 \<le> isqrt n"
proof (induction n rule: isqrt.induct)
  case (1 n)
  show ?case
  proof (cases "n < 2")
    case True
    then show ?thesis by (simp add: isqrt.simps [of n])
  next
    case False
    then show ?thesis using 1 by (simp add: isqrt.simps [of n] Let_def)
  qed
qed

lemma isqrt_square_le: "0 \<le> n \<Longrightarrow> isqrt n * isqrt n \<le> n"
proof (induction n rule: isqrt.induct)
  case (1 n)
  show ?case
  proof (cases "n < 2")
    case True
    then have "n = 0 \<or> n = 1" using "1.prems" by linarith
    then show ?thesis by (auto simp: isqrt.simps [of 0] isqrt.simps [of 1])
  next
    case False
    define r where "r = isqrt (n div 4)"
    have "r * r \<le> n div 4" unfolding r_def using 1 False by simp
    then have "4 * (r * r) \<le> n" by linarith
    then have "(2 * r) * (2 * r) \<le> n" by (simp add: algebra_simps)
    then show ?thesis
      using False by (simp add: isqrt.simps [of n] Let_def r_def [symmetric])
  qed
qed

lemma sqrt_nearest_bounds:
  assumes q: "0 < q"
  shows "0 \<le> sqrt_nearest q" and "sqrt_nearest q * sqrt_nearest q \<le> 4 * q"
proof -
  define u where "u = pow2 (ilog2 q div 2 - 52)"
  define f where "f = isqrt \<lfloor>q / (u * u)\<rfloor>"
  define m where "m = (if q < ((2 * of_int f + 1) * u / 2) * ((2 * of_int f + 1) * u / 2) then f
      else if ((2 * of_int f + 1) * u / 2) * ((2 * of_int f + 1) * u / 2) < q then f + 1
      else if even f then f else f + 1)"
  have r: "sqrt_nearest q = of_int m * u"
    by (simp add: sqrt_nearest_def Let_def u_def f_def m_def)
  have u: "0 < u" by (simp add: u_def pow2_pos)
  have f0: "0 \<le> f" by (simp add: f_def isqrt_nonneg)
  have m: "0 \<le> m" "m \<le> f + 1" using f0 by (simp_all add: m_def)
  show "0 \<le> sqrt_nearest q" using m(1) u by (simp add: r)
  have "0 \<le> q / (u * u)" using q u by simp
  then have fl: "0 \<le> \<lfloor>q / (u * u)\<rfloor>" by simp
  have "f * f \<le> \<lfloor>q / (u * u)\<rfloor>" unfolding f_def using fl by (rule isqrt_square_le)
  then have "(of_int (f * f) :: rat) \<le> of_int \<lfloor>q / (u * u)\<rfloor>" by (simp only: of_int_le_iff)
  then have "(of_int (f * f) :: rat) \<le> q / (u * u)"
    using of_int_floor_le [of "q / (u * u)"] by (rule order_trans)
  then have "of_int (f * f) * (u * u) \<le> q" using u by (simp add: field_simps)
  then have fu: "(of_int f * u) * (of_int f * u) \<le> q" by (simp add: algebra_simps)
  have "2 * (ilog2 q div 2 - 52) \<le> ilog2 q" by presburger
  then have "pow2 (2 * (ilog2 q div 2 - 52)) \<le> pow2 (ilog2 q)" by (rule pow2_mono)
  moreover have "pow2 (2 * (ilog2 q div 2 - 52)) = u * u"
    using pow2_add [of "ilog2 q div 2 - 52" "ilog2 q div 2 - 52"] by (simp add: u_def)
  ultimately have uu: "u * u \<le> q" using ilog2_le [OF q] by simp
  have "of_int m * u \<le> of_int f * u + u"
  proof -
    have "(of_int m :: rat) \<le> of_int (f + 1)" using m(2) by (simp only: of_int_le_iff)
    then have "of_int m * u \<le> of_int (f + 1) * u" using u by (simp add: mult_right_mono)
    then show ?thesis by (simp add: algebra_simps)
  qed
  moreover have "0 \<le> of_int m * u" using m(1) u by simp
  ultimately have "(of_int m * u) * (of_int m * u) \<le> (of_int f * u + u) * (of_int f * u + u)"
    by (intro mult_mono) simp_all
  also have "\<dots> \<le> 2 * ((of_int f * u) * (of_int f * u)) + 2 * (u * u)"
  proof -
    have "0 \<le> (of_int f * u - u) * (of_int f * u - u)" by simp
    then show ?thesis by (simp add: algebra_simps)
  qed
  also have "\<dots> \<le> 4 * q" using fu uu by linarith
  finally show "sqrt_nearest q * sqrt_nearest q \<le> 4 * q" by (simp add: r)
qed

lemma f64_of_len_pos:
  assumes "0 < n"
  shows "f64_of_len n = PInf \<or> (\<exists>y. f64_of_len n = Fin y \<and> 1 / 2 \<le> y)"
proof -
  have "(1::rat) \<le> of_nat n" using assms by simp
  from round_f64_ge_1 [OF this] show ?thesis
    unfolding f64_of_len_def
  proof
    assume "round_f64 (of_nat n) = PInf"
    then show "round_f64 (of_nat n) = PInf \<or> (\<exists>y. round_f64 (of_nat n) = Fin y \<and> 1 / 2 \<le> y)"
      by simp
  next
    assume "\<exists>v. round_f64 (of_nat n) = Fin v \<and> of_nat n / 2 \<le> v"
    then obtain v where v: "round_f64 (of_nat n) = Fin v" "(of_nat n :: rat) / 2 \<le> v" by blast
    have "(1::rat) / 2 \<le> of_nat n / 2" using \<open>1 \<le> of_nat n\<close> by simp
    then have "1 / 2 \<le> v" using v(2) by linarith
    then show "round_f64 (of_nat n) = PInf \<or> (\<exists>y. round_f64 (of_nat n) = Fin y \<and> 1 / 2 \<le> y)"
      using v(1) by simp
  qed
qed

lemma jitter_float_range:
  assumes V: "0 \<le> sint V" and n: "0 < n"
  shows "\<exists>s. f64_sqrt (f64_div (f64_of_int64 V) (f64_of_len n)) = Fin s \<and> 0 \<le> s \<and> s < 2 ^ 35"
proof -
  define k where "k = sint V"
  have k: "0 \<le> k" "k \<le> 2 ^ 63" using V sint_lt [of V] by (simp_all add: k_def)
  have V0: "(0::rat) \<le> of_int k" using k(1) by simp
  have "(of_int k :: rat) \<le> of_int (2 ^ 63)" using k(2) by (simp only: of_int_le_iff)
  then have Vb: "(of_int k :: rat) \<le> 2 ^ 63" by simp
  then have "(of_int k :: rat) \<le> 2 ^ 70" by simp
  from round_f64_nonneg_bounded [OF V0 this]
  obtain x where "round_f64 (of_int k) = Fin x" and x: "0 \<le> x" "x \<le> 2 * of_int k + 1"
    by blast
  then have xV: "f64_of_int64 V = Fin x" unfolding f64_of_int64_def k_def by simp
  have xb: "x \<le> 2 ^ 64 + 1" using x(2) Vb by simp
  have "\<exists>z. f64_div (Fin x) (f64_of_len n) = Fin z \<and> 0 \<le> z \<and> z \<le> 2 ^ 67"
    using f64_of_len_pos [OF n]
  proof
    assume "f64_of_len n = PInf"
    then show ?thesis by simp
  next
    assume "\<exists>y. f64_of_len n = Fin y \<and> 1 / 2 \<le> y"
    then obtain y where y: "f64_of_len n = Fin y" "1 / 2 \<le> y" by blast
    have y0: "0 < y" using y(2) by simp
    have "x / y \<le> 2 * x"
    proof -
      have "x * 1 \<le> x * (2 * y)" using x(1) y(2) by (intro mult_left_mono) simp_all
      then have "x \<le> 2 * x * y" by (simp add: algebra_simps)
      then show ?thesis using y0 by (simp add: field_simps)
    qed
    then have q: "0 \<le> x / y" "x / y \<le> 2 ^ 65 + 2" using x(1) y0 xb by simp_all
    then have "x / y \<le> 2 ^ 70" by simp
    from round_f64_nonneg_bounded [OF q(1) this]
    obtain z where z: "round_f64 (x / y) = Fin z" "0 \<le> z" "z \<le> 2 * (x / y) + 1" by blast
    have "z \<le> 2 ^ 67" using z(3) q(2) by simp
    then show ?thesis using y(1) y0 z by simp
  qed
  then obtain z where z: "f64_div (f64_of_int64 V) (f64_of_len n) = Fin z" "0 \<le> z" "z \<le> 2 ^ 67"
    using xV by auto
  show ?thesis
  proof (cases "z = 0")
    case True
    then show ?thesis using z(1) by simp
  next
    case False
    then have zp: "0 < z" using z(2) by simp
    define s where "s = sqrt_nearest z"
    have s: "0 \<le> s" "s * s \<le> 4 * z" unfolding s_def using sqrt_nearest_bounds [OF zp] by blast+
    have "s < 2 ^ 35"
    proof (rule ccontr)
      assume "\<not> s < 2 ^ 35"
      then have "2 ^ 35 \<le> s" by simp
      then have "(2 ^ 35) * (2 ^ 35) \<le> s * s" by (intro mult_mono) simp_all
      then show False using s(2) z(3) by simp
    qed
    then show ?thesis using z(1) zp s(1) by (simp add: s_def)
  qed
qed

section \<open>The jitter value\<close>

lemma jitterValue_range:
  assumes "l \<noteq> []" and "0 \<le> sint (variance l)"
  shows "\<exists>t. jitterValue impl l = word_of_int t \<and> 0 \<le> t \<and> t < 2 ^ 35"
proof -
  have "0 < length l" using assms(1) by simp
  from jitter_float_range [OF assms(2) this]
  obtain s where s: "f64_sqrt (f64_div (f64_of_int64 (variance l)) (f64_of_len (length l))) = Fin s"
    "0 \<le> s" "s < 2 ^ 35" by blast
  have f: "0 \<le> \<lfloor>s\<rfloor>" "\<lfloor>s\<rfloor> < 2 ^ 35" using s(2,3) by (simp_all add: floor_less_iff)
  then have "\<lfloor>s\<rfloor> < 2 ^ 63" by simp
  then have "jitterValue impl l = word_of_int \<lfloor>s\<rfloor>"
    using f(1) s(1,2) by (simp add: jitterValue_def int64_of_f64_def Let_def)
  then show ?thesis using f by blast
qed

lemma scaled_nonneg:
  assumes "0 \<le> t" and "t < 2 ^ 35"
  shows "sint (word_of_int t :: int64) = t"
    and "sint ((word_of_int t :: int64) * Nanosecond) = t"
    and "sint ((word_of_int t :: int64) * Microsecond) = 1000 * t"
proof -
  have r: "- (2 ^ 63) \<le> t" "t < 2 ^ 63" "- (2 ^ 63) \<le> 1000 * t" "1000 * t < 2 ^ 63"
    using assms by simp_all
  show "sint (word_of_int t :: int64) = t" using r(1,2) by (rule sint_word_of_int_64)
  then show "sint ((word_of_int t :: int64) * Nanosecond) = t" by (simp add: Nanosecond_def)
  have "(word_of_int t :: int64) * Microsecond = word_of_int (1000 * t)"
    by (simp add: Microsecond_def Nanosecond_def)
  then show "sint ((word_of_int t :: int64) * Microsecond) = 1000 * t"
    using sint_word_of_int_64 [OF r(3,4)] by simp
qed

lemma stored_fields:
  assumes "l \<noteq> []"
  shows "SLatency (store_latency_jitter impl l server) =
           (if 1000000 < sint (avgLatency l) then avgLatency l * Nanosecond
            else avgLatency l * Microsecond)"
    and "SJitter (store_latency_jitter impl l server) =
           (if 1000000 < sint (avgLatency l) then jitterValue impl l * Nanosecond
            else jitterValue impl l * Microsecond)"
  using assms by (simp_all add: store_latency_jitter_def Let_def)

lemma sdiv_mult_self:
  fixes n k :: int
  assumes "0 < n"
  shows "(n * k) sdiv n = k"
proof (cases "0 \<le> k")
  case True
  then have "0 \<le> n * k" using assms by simp
  then show ?thesis using assms by (simp add: sdiv_of_nonneg)
next
  case False
  then have "n * k < 0" using assms by (simp add: mult_pos_neg)
  moreover have c: "(n * j) div n = j" for j using assms by simp
  have "- (n * k) div n = - k" using c [of "- k"] by simp
  ultimately show ?thesis using assms by (simp add: sdiv_of_neg del: div_minus_right)
qed

lemma sum_equal_samples:
  "\<forall>y\<in>set l. y = x \<Longrightarrow> (\<Sum>y\<leftarrow>l. sint y) = int (length l) * sint x"
  by (induction l) (simp_all add: algebra_simps)

lemma equal_samples:
  assumes ne: "l \<noteq> []" and eq: "\<forall>y\<in>set l. y = x"
    and len: "int (length l) < 2 ^ 63"
    and fits: "- (2 ^ 63) \<le> int (length l) * sint x" "int (length l) * sint x < 2 ^ 63"
  shows "avgLatency l = x" and "variance l = 0" and "jitterValue impl l = 0"
proof -
  have S: "(\<Sum>y\<leftarrow>l. sint y) = int (length l) * sint x" using eq by (rule sum_equal_samples)
  have n: "0 < int (length l)" using ne by simp
  have "sint (avgLatency l) = (int (length l) * sint x) sdiv int (length l)"
    using avgLatency_true_mean [OF len _ _ ne] fits by (simp add: S)
  then have "sint (avgLatency l) = sint x" using n by (simp add: sdiv_mult_self)
  then show avg: "avgLatency l = x" by (rule signed_word_eqI)
  have "(\<Sum>y\<leftarrow>l. (sint y - sint x) * (sint y - sint x)) = 0"
    using eq by (induction l) simp_all
  then show var: "variance l = 0" by (simp add: variance_eq avg)
  have "0 < length l" using ne by simp
  from f64_of_len_pos [OF this]
  have "f64_div (Fin 0) (f64_of_len (length l)) = Fin 0"
    by (auto simp: round_f64_def)
  then show "jitterValue impl l = 0"
    by (simp add: jitterValue_def var f64_of_int64_def round_f64_def int64_of_f64_def)
qed

lemma ten_ms: "store_latency_jitter impl [10000000, 10000000, 10000000, 10000000, 10000000] server
    = server\<lparr>SLatency := 10000000, SJitter := 0\<rparr>"
proof -
  let ?l = "[10000000, 10000000, 10000000, 10000000, 10000000 :: int64]"
  have "avgLatency ?l = 10000000" "jitterValue impl ?l = 0"
    by (rule equal_samples [where x = 10000000]; simp)+
  then show ?thesis
    by (simp add: store_latency_jitter_def Let_def Nanosecond_def)
qed

lemma ten_ms_in_microseconds: "store_latency_jitter impl [10000, 10000, 10000, 10000, 10000] server
    = server\<lparr>SLatency := 10000000, SJitter := 0\<rparr>"
proof -
  let ?l = "[10000, 10000, 10000, 10000, 10000 :: int64]"
  have "avgLatency ?l = 10000" "jitterValue impl ?l = 0"
    by (rule equal_samples [where x = 10000]; simp)+
  then show ?thesis
    by (simp add: store_latency_jitter_def Let_def Microsecond_def Nanosecond_def)
qed

section \<open>Properties of the scores\<close>

text \<open>
  Claim C1, as the specification states it: each score is the sum of four first-match
  table scans over download, latency, jitter and upload, with the tables of section 4.2.
  Read on the latency the result holds, the claim fails: the tables award the 30 points
  of the row "at most 20 ms" to a latency of 20.5 ms, which is not at most 20 ms, because
  the code compares the whole milliseconds of the duration. At download 30, upload 10,
  latency 20.5 ms and jitter 3 ms the streaming score is 100, while the table scan on the
  exact latency gives 90.
\<close>

theorem table_scan_exact_latency_counterexample:
  "calculateStreamingScore
     \<lparr>Latency = 20500000, Jitter = 3000000, DownloadSpeed = Fin 30, UploadSpeed = Fin 10,
      ServerName = '''', ServerCountry = ''''\<rparr> = 100 \<and>
   table_score exact_ms streaming_tables
     \<lparr>Latency = 20500000, Jitter = 3000000, DownloadSpeed = Fin 30, UploadSpeed = Fin 10,
      ServerName = '''', ServerCountry = ''''\<rparr> = 90"
  by (simp add: calculateStreamingScore_def Milliseconds_def signed_divide_int_def
      table_score_def streaming_tables_def scan_at_least_def scan_at_most_def exact_ms_def)

text \<open>
  Claim C1, amended: for every result, each of the three scores is the sum of four
  first-match table scans with default 0, over the download speed, the latency truncated
  to whole milliseconds, the jitter truncated to whole milliseconds, and the upload
  speed, with the tables of section 4.2.
\<close>

theorem scores_are_table_scans:
  "calculateStreamingScore r = table_score whole_ms streaming_tables r \<and>
   calculateGamingScore r = table_score whole_ms gaming_tables r \<and>
   calculateWebchatScore r = table_score whole_ms rtc_tables r"
  by (simp add: score_sums table_score_def streaming_tables_def gaming_tables_def
      rtc_tables_def scan_at_least_def scan_at_most_def whole_ms_def)

text \<open>
  Claim C3, as the specification states it: at download 30, upload 10, latency 15 ms and
  jitter 3 ms the gaming score is 70 and its label "Good". The code gives the latency row
  "at most 20 ms" its 30 points, so the gaming score is 80 and the label is "Great".
\<close>

theorem gaming_example_counterexample:
  "calculateGamingScore
     \<lparr>Latency = 15000000, Jitter = 3000000, DownloadSpeed = Fin 30, UploadSpeed = Fin 10,
      ServerName = '''', ServerCountry = ''''\<rparr> \<noteq> 70 \<and>
   Gaming (calculateNetworkQuality
     \<lparr>Latency = 15000000, Jitter = 3000000, DownloadSpeed = Fin 30, UploadSpeed = Fin 10,
      ServerName = '''', ServerCountry = ''''\<rparr>) \<noteq> ''Good''"
  by (simp add: calculateNetworkQuality_def getQualityLabel_def calculateGamingScore_sum
      Milliseconds_def signed_divide_int_def Let_def)

text \<open>
  Claim C3, amended: at download 30, upload 10, latency 15 ms and jitter 3 ms, whatever
  the server, the streaming score is 100 with label "Great", the gaming score is
  30 + 20 + 20 + 10 = 80 with label "Great", and the webchat score is 100 with label
  "Great".
\<close>

theorem example_scores:
  "calculateStreamingScore
     \<lparr>Latency = 15000000, Jitter = 3000000, DownloadSpeed = Fin 30, UploadSpeed = Fin 10,
      ServerName = n, ServerCountry = c\<rparr> = 100 \<and>
   calculateGamingScore
     \<lparr>Latency = 15000000, Jitter = 3000000, DownloadSpeed = Fin 30, UploadSpeed = Fin 10,
      ServerName = n, ServerCountry = c\<rparr> = 80 \<and>
   calculateWebchatScore
     \<lparr>Latency = 15000000, Jitter = 3000000, DownloadSpeed = Fin 30, UploadSpeed = Fin 10,
      ServerName = n, ServerCountry = c\<rparr> = 100 \<and>
   calculateNetworkQuality
     \<lparr>Latency = 15000000, Jitter = 3000000, DownloadSpeed = Fin 30, UploadSpeed = Fin 10,
      ServerName = n, ServerCountry = c\<rparr> =
     \<lparr>Streaming = ''Great'', Gaming = ''Great'', Webchat = ''Great''\<rparr>"
  by (simp add: calculateNetworkQuality_def getQualityLabel_def score_sums
      Milliseconds_def signed_divide_int_def)

text \<open>
  Claim C5. Each of the three scores is monotone: when one metric of a result strictly
  worsens (the latency or the jitter grows, the download or the upload speed drops) and
  the other fields stay as they are, the score does not increase.
\<close>

theorem score_monotone:
  assumes "score \<in> {calculateStreamingScore, calculateGamingScore, calculateWebchatScore}"
  shows "(sint (Latency r) < sint l \<longrightarrow> score (r\<lparr>Latency := l\<rparr>) \<le> score r) \<and>
         (sint (Jitter r) < sint j \<longrightarrow> score (r\<lparr>Jitter := j\<rparr>) \<le> score r) \<and>
         (f64_lt d (DownloadSpeed r) \<longrightarrow> score (r\<lparr>DownloadSpeed := d\<rparr>) \<le> score r) \<and>
         (f64_lt u (UploadSpeed r) \<longrightarrow> score (r\<lparr>UploadSpeed := u\<rparr>) \<le> score r)"
proof (intro conjI impI)
  assume "sint (Latency r) < sint l"
  with assms show "score (r\<lparr>Latency := l\<rparr>) \<le> score r" by (rule latency_mono)
next
  assume "sint (Jitter r) < sint j"
  with assms show "score (r\<lparr>Jitter := j\<rparr>) \<le> score r" by (rule jitter_mono)
next
  assume "f64_lt d (DownloadSpeed r)"
  with assms show "score (r\<lparr>DownloadSpeed := d\<rparr>) \<le> score r" by (rule download_mono)
next
  assume "f64_lt u (UploadSpeed r)"
  with assms show "score (r\<lparr>UploadSpeed := u\<rparr>) \<le> score r" by (rule upload_mono)
qed

theorem score_monotone_witness:
  "calculateGamingScore
     (\<lparr>Latency = 15000000, Jitter = 3000000, DownloadSpeed = Fin 30, UploadSpeed = Fin 10,
       ServerName = '''', ServerCountry = ''''\<rparr>\<lparr>Latency := 25000000\<rparr>)
   \<le> calculateGamingScore
     \<lparr>Latency = 15000000, Jitter = 3000000, DownloadSpeed = Fin 30, UploadSpeed = Fin 10,
      ServerName = '''', ServerCountry = ''''\<rparr> \<and>
   calculateStreamingScore
     (\<lparr>Latency = 15000000, Jitter = 3000000, DownloadSpeed = Fin 30, UploadSpeed = Fin 10,
       ServerName = '''', ServerCountry = ''''\<rparr>\<lparr>Jitter := 7000000\<rparr>)
   \<le> calculateStreamingScore
     \<lparr>Latency = 15000000, Jitter = 3000000, DownloadSpeed = Fin 30, UploadSpeed = Fin 10,
      ServerName = '''', ServerCountry = ''''\<rparr> \<and>
   calculateWebchatScore
     (\<lparr>Latency = 15000000, Jitter = 3000000, DownloadSpeed = Fin 30, UploadSpeed = Fin 10,
       ServerName = '''', ServerCountry = ''''\<rparr>\<lparr>DownloadSpeed := Fin 3\<rparr>)
   \<le> calculateWebchatScore
     \<lparr>Latency = 15000000, Jitter = 3000000, DownloadSpeed = Fin 30, UploadSpeed = Fin 10,
      ServerName = '''', ServerCountry = ''''\<rparr> \<and>
   calculateWebchatScore
     (\<lparr>Latency = 15000000, Jitter = 3000000, DownloadSpeed = Fin 30, UploadSpeed = Fin 10,
       ServerName = '''', ServerCountry = ''''\<rparr>\<lparr>UploadSpeed := Fin (3 / 2)\<rparr>)
   \<le> calculateWebchatScore
     \<lparr>Latency = 15000000, Jitter = 3000000, DownloadSpeed = Fin 30, UploadSpeed = Fin 10,
      ServerName = '''', ServerCountry = ''''\<rparr>"
  using
    score_monotone [of calculateGamingScore
      "\<lparr>Latency = 15000000, Jitter = 3000000, DownloadSpeed = Fin 30, UploadSpeed = Fin 10,
        ServerName = '''', ServerCountry = ''''\<rparr>" 25000000 0 NaN NaN]
    score_monotone [of calculateStreamingScore
      "\<lparr>Latency = 15000000, Jitter = 3000000, DownloadSpeed = Fin 30, UploadSpeed = Fin 10,
        ServerName = '''', ServerCountry = ''''\<rparr>" 0 7000000 NaN NaN]
    score_monotone [of calculateWebchatScore
      "\<lparr>Latency = 15000000, Jitter = 3000000, DownloadSpeed = Fin 30, UploadSpeed = Fin 10,
        ServerName = '''', ServerCountry = ''''\<rparr>" 0 0 "Fin 3" "Fin (3 / 2)"]
  by simp

text \<open>
  Claim C6. For every result, whatever its latency, jitter, download and upload values,
  each of the three scores is an integer between 0 and 100, both included.
\<close>

theorem scores_in_range:
  "0 \<le> calculateStreamingScore r \<and> calculateStreamingScore r \<le> 100 \<and>
   0 \<le> calculateGamingScore r \<and> calculateGamingScore r \<le> 100 \<and>
   0 \<le> calculateWebchatScore r \<and> calculateWebchatScore r \<le> 100"
proof -
  have "0 \<le> calculateStreamingScore r \<and> calculateStreamingScore r \<le> 40 + 30 + 20 + 10"
    unfolding calculateStreamingScore_sum by (rule sum4_range) simp_all
  moreover
  have "0 \<le> calculateGamingScore r \<and> calculateGamingScore r \<le> 40 + 30 + 20 + 10"
    unfolding calculateGamingScore_sum by (rule sum4_range) simp_all
  moreover
  have "0 \<le> calculateWebchatScore r \<and> calculateWebchatScore r \<le> 30 + 25 + 25 + 20"
    unfolding calculateWebchatScore_sum by (rule sum4_range) simp_all
  ultimately show ?thesis by simp
qed

section \<open>Properties of the latency phase\<close>

lemma microsecond_scaling:
  fixes w :: int64
  assumes "- 9223372036854775 \<le> sint w" and "sint w \<le> 9223372036854775"
  shows "sint (w * Microsecond) = 1000 * sint w"
proof -
  define k where "k = sint w"
  have r: "- (2 ^ 63) \<le> 1000 * k" "1000 * k < 2 ^ 63"
    using assms by (simp_all add: k_def)
  have "w = word_of_int k" by (simp add: k_def)
  then have "w * Microsecond = word_of_int (1000 * k)"
    by (simp add: Microsecond_def Nanosecond_def)
  then show ?thesis
    using sint_word_of_int_64 [OF r] by (simp add: k_def)
qed

lemma nanosecond_scaling:
  fixes w :: int64
  shows "sint (w * Nanosecond) = sint w"
  by (simp add: Nanosecond_def)

text \<open>
  Where the sum of the squared deviations does not wrap to a negative \<open>int64\<close>, the jitter
  value and the stored jitter are at least 0, and equal samples whose sum fits in an
  \<open>int64\<close> give the jitter 0. Five samples of 10 ms, given in nanoseconds (10000000) or in
  microseconds (10000), give the latency 10 ms and the jitter 0.
\<close>

lemma jitter_without_wraparound:
  assumes "latencies \<noteq> []"
  shows "(0 \<le> sint (variance latencies) \<longrightarrow>
            0 \<le> sint (jitterValue impl latencies) \<and>
            0 \<le> sint (SJitter (store_latency_jitter impl latencies server))) \<and>
         ((\<Sum>y\<leftarrow>latencies. (sint y - sint (avgLatency latencies)) *
             (sint y - sint (avgLatency latencies))) < 2 ^ 63 \<longrightarrow>
            0 \<le> sint (variance latencies)) \<and>
         ((\<forall>y\<in>set latencies. y = x) \<and> int (length latencies) < 2 ^ 63 \<and>
          - (2 ^ 63) \<le> int (length latencies) * sint x \<and>
          int (length latencies) * sint x < 2 ^ 63 \<longrightarrow>
            jitterValue impl latencies = 0 \<and>
            SJitter (store_latency_jitter impl latencies server) = 0) \<and>
         store_latency_jitter impl [10000000, 10000000, 10000000, 10000000, 10000000] server
           = server\<lparr>SLatency := 10000000, SJitter := 0\<rparr> \<and>
         store_latency_jitter impl [10000, 10000, 10000, 10000, 10000] server
           = server\<lparr>SLatency := 10000000, SJitter := 0\<rparr>"
proof (intro conjI impI)
  assume "0 \<le> sint (variance latencies)"
  from jitterValue_range [OF assms this]
  obtain t where t: "jitterValue impl latencies = word_of_int t" "0 \<le> t" "t < 2 ^ 35"
    by blast
  show "0 \<le> sint (jitterValue impl latencies)"
    using scaled_nonneg(1) [OF t(2,3)] t(1,2) by simp
  show "0 \<le> sint (SJitter (store_latency_jitter impl latencies server))"
    using scaled_nonneg(2,3) [OF t(2,3)] t(1,2) by (simp add: stored_fields(2) [OF assms])
next
  assume h: "(\<forall>y\<in>set latencies. y = x) \<and> int (length latencies) < 2 ^ 63 \<and>
    - (2 ^ 63) \<le> int (length latencies) * sint x \<and>
    int (length latencies) * sint x < 2 ^ 63"
  then have z: "jitterValue impl latencies = 0"
    using equal_samples(3) [OF assms, of x impl] by blast
  then show "jitterValue impl latencies = 0" .
  show "SJitter (store_latency_jitter impl latencies server) = 0"
    by (simp add: stored_fields(2) [OF assms] z)
next
  assume "(\<Sum>y\<leftarrow>latencies. (sint y - sint (avgLatency latencies)) *
    (sint y - sint (avgLatency latencies))) < 2 ^ 63"
  then show "0 \<le> sint (variance latencies)" by (rule variance_no_overflow)
next
  show "store_latency_jitter impl [10000000, 10000000, 10000000, 10000000, 10000000] server
    = server\<lparr>SLatency := 10000000, SJitter := 0\<rparr>"
    by (rule ten_ms)
next
  show "store_latency_jitter impl [10000, 10000, 10000, 10000, 10000] server
    = server\<lparr>SLatency := 10000000, SJitter := 0\<rparr>"
    by (rule ten_ms_in_microseconds)
qed

text \<open>
  Claim C4. For every non-empty list of samples the jitter, a standard deviation, is at
  least 0. The code breaks this for the two samples 1 ms and 6 s (1000000 and 6000000000
  ns): the \<open>int64\<close> sum of the squared deviations, about 1.8e19, wraps to a negative
  number, the square root of the quotient is NaN, and the jitter value is whatever the
  platform's conversion makes of NaN. Where that is the smallest \<open>int64\<close>, as on amd64,
  the stored jitter is negative.
\<close>

theorem jitter_negative_after_wraparound:
  "sint (variance [1000000, 6000000000]) < 0 \<and>
   f64_sqrt (f64_div (f64_of_int64 (variance [1000000, 6000000000]))
     (f64_of_len (length [1000000, 6000000000 :: int64]))) = NaN \<and>
   jitterValue impl [1000000, 6000000000] = impl NaN \<and>
   sint (SJitter (store_latency_jitter (\<lambda>_. - (2 ^ 63)) [1000000, 6000000000] server)) < 0"
proof -
  let ?l = "[1000000, 6000000000 :: int64]"
  have v: "sint (variance ?l) < 0"
    by code_simp
  have n: "f64_sqrt (f64_div (f64_of_int64 (variance ?l)) (f64_of_len (length ?l))) = NaN"
    by code_simp
  have j: "jitterValue impl ?l = impl NaN" for impl
    unfolding jitterValue_def n by (simp add: int64_of_f64_def)
  have a: "1000000 < sint (avgLatency ?l)"
    by code_simp
  have "SJitter (store_latency_jitter (\<lambda>_. - (2 ^ 63)) ?l server) = - (2 ^ 63)"
    using a by (simp add: stored_fields(2) j Nanosecond_def)
  then have "sint (SJitter (store_latency_jitter (\<lambda>_. - (2 ^ 63)) ?l server)) < 0"
    by simp
  then show ?thesis using v n j by blast
qed

text \<open>
  Claim C9, as stated: with \<open>m\<close> the integer mean of the samples, the stored latency is
  \<open>m\<close> nanoseconds if \<open>m\<close> exceeds 1000000 and \<open>m\<close> microseconds otherwise, so that for a
  mean of at most 1000000 the stored latency is 1000 times the mean. The code works in
  \<open>int64\<close>. For the single sample -5000000000000000000 the mean is the sample and is at
  most 1000000, but its product with 1000 wraps, and the stored latency is not 1000
  times the mean. For five samples of 6000000000000000000 the sum wraps, the mean that
  the code computes is not the mean of the samples, which exceeds 1000000, and the
  stored latency is not that mean.
\<close>

theorem latency_unit_wraparound_counterexample:
  "sint (avgLatency [- 5000000000000000000]) = - 5000000000000000000 \<and>
   sint (SLatency (store_latency_jitter (\<lambda>_. 0) [- 5000000000000000000]
      \<lparr>Name = '''', Country = '''', SLatency = 0, SJitter = 0, DLSpeed = Fin 0,
       ULSpeed = Fin 0\<rparr>)) \<noteq> 1000 * (- 5000000000000000000) \<and>
   sint (avgLatency
     [6000000000000000000, 6000000000000000000, 6000000000000000000,
      6000000000000000000, 6000000000000000000]) \<noteq> 6000000000000000000 \<and>
   sint (SLatency (store_latency_jitter (\<lambda>_. 0)
     [6000000000000000000, 6000000000000000000, 6000000000000000000,
      6000000000000000000, 6000000000000000000]
      \<lparr>Name = '''', Country = '''', SLatency = 0, SJitter = 0, DLSpeed = Fin 0,
       ULSpeed = Fin 0\<rparr>)) \<noteq> 6000000000000000000"
proof -
  let ?a = "[- 5000000000000000000 :: int64]"
  let ?b = "[6000000000000000000, 6000000000000000000, 6000000000000000000,
      6000000000000000000, 6000000000000000000 :: int64]"
  have a: "avgLatency ?a = - 5000000000000000000"
    by code_simp
  have b: "avgLatency ?b = - 1378697629483820646"
    by code_simp
  have "sint (- 5000000000000000000 * Microsecond) \<noteq> 1000 * (- 5000000000000000000)"
    by (simp add: Microsecond_def Nanosecond_def)
  moreover have "sint (- 1378697629483820646 * Microsecond) \<noteq> 6000000000000000000"
    by (simp add: Microsecond_def Nanosecond_def)
  ultimately show ?thesis
    by (simp add: stored_fields(1) a b)
qed

text \<open>
  Claim C9, amended. The unit heuristic of the latency phase: with \<open>m\<close> the mean that the
  code computes for a non-empty list of samples, which is the integer mean of the samples
  (truncating division) whenever their sum fits in an \<open>int64\<close>, the stored latency is
  \<open>m\<close> nanoseconds and the stored jitter the jitter value in nanoseconds if \<open>m\<close> exceeds
  1000000; otherwise they are the \<open>int64\<close> products of \<open>m\<close> and of the jitter value with
  1000, which are \<open>m\<close> microseconds and the jitter value in microseconds whenever these
  are between -9223372036854775 and 9223372036854775. So for samples whose sum fits in an
  \<open>int64\<close> and whose mean is between -9223372036854775 and 1000000 ns, the stored latency
  is 1000 times the mean.
\<close>

theorem latency_unit_heuristic:
  assumes "latencies \<noteq> []"
  shows "SLatency (store_latency_jitter impl latencies server) =
           (if 1000000 < sint (avgLatency latencies) then avgLatency latencies * Nanosecond
            else avgLatency latencies * Microsecond) \<and>
         SJitter (store_latency_jitter impl latencies server) =
           (if 1000000 < sint (avgLatency latencies)
            then jitterValue impl latencies * Nanosecond
            else jitterValue impl latencies * Microsecond) \<and>
         (int (length latencies) < 2 ^ 63 \<and> - (2 ^ 63) \<le> (\<Sum>x\<leftarrow>latencies. sint x) \<and>
          (\<Sum>x\<leftarrow>latencies. sint x) < 2 ^ 63 \<longrightarrow>
            sint (avgLatency latencies) =
              (\<Sum>x\<leftarrow>latencies. sint x) sdiv int (length latencies)) \<and>
         (1000000 < sint (avgLatency latencies) \<longrightarrow>
            sint (SLatency (store_latency_jitter impl latencies server)) =
              sint (avgLatency latencies) \<and>
            sint (SJitter (store_latency_jitter impl latencies server)) =
              sint (jitterValue impl latencies)) \<and>
         (- 9223372036854775 \<le> sint (avgLatency latencies) \<and>
          sint (avgLatency latencies) \<le> 1000000 \<longrightarrow>
            sint (SLatency (store_latency_jitter impl latencies server)) =
              1000 * sint (avgLatency latencies)) \<and>
         (sint (avgLatency latencies) \<le> 1000000 \<and>
          - 9223372036854775 \<le> sint (jitterValue impl latencies) \<and>
          sint (jitterValue impl latencies) \<le> 9223372036854775 \<longrightarrow>
            sint (SJitter (store_latency_jitter impl latencies server)) =
              1000 * sint (jitterValue impl latencies)) \<and>
         (int (length latencies) < 2 ^ 63 \<and> - (2 ^ 63) \<le> (\<Sum>x\<leftarrow>latencies. sint x) \<and>
          (\<Sum>x\<leftarrow>latencies. sint x) < 2 ^ 63 \<and>
          - 9223372036854775 \<le> (\<Sum>x\<leftarrow>latencies. sint x) sdiv int (length latencies) \<and>
          (\<Sum>x\<leftarrow>latencies. sint x) sdiv int (length latencies) \<le> 1000000 \<longrightarrow>
            sint (SLatency (store_latency_jitter impl latencies server)) =
              1000 * ((\<Sum>x\<leftarrow>latencies. sint x) sdiv int (length latencies)))"
proof (intro conjI impI)
  show "SLatency (store_latency_jitter impl latencies server) =
           (if 1000000 < sint (avgLatency latencies) then avgLatency latencies * Nanosecond
            else avgLatency latencies * Microsecond)"
    by (rule stored_fields(1) [OF assms])
  show "SJitter (store_latency_jitter impl latencies server) =
           (if 1000000 < sint (avgLatency latencies)
            then jitterValue impl latencies * Nanosecond
            else jitterValue impl latencies * Microsecond)"
    by (rule stored_fields(2) [OF assms])
next
  assume "int (length latencies) < 2 ^ 63 \<and> - (2 ^ 63) \<le> (\<Sum>x\<leftarrow>latencies. sint x) \<and>
    (\<Sum>x\<leftarrow>latencies. sint x) < 2 ^ 63"
  then show "sint (avgLatency latencies) =
      (\<Sum>x\<leftarrow>latencies. sint x) sdiv int (length latencies)"
    using avgLatency_true_mean [OF _ _ _ assms] by blast
next
  assume m: "1000000 < sint (avgLatency latencies)"
  show "sint (SLatency (store_latency_jitter impl latencies server)) =
      sint (avgLatency latencies)"
    using m by (simp add: stored_fields(1) [OF assms] nanosecond_scaling)
  show "sint (SJitter (store_latency_jitter impl latencies server)) =
      sint (jitterValue impl latencies)"
    using m by (simp add: stored_fields(2) [OF assms] nanosecond_scaling)
next
  assume m: "- 9223372036854775 \<le> sint (avgLatency latencies) \<and>
    sint (avgLatency latencies) \<le> 1000000"
  then have "sint (avgLatency latencies * Microsecond) = 1000 * sint (avgLatency latencies)"
    by (intro microsecond_scaling) simp_all
  then show "sint (SLatency (store_latency_jitter impl latencies server)) =
      1000 * sint (avgLatency latencies)"
    using m by (simp add: stored_fields(1) [OF assms])
next
  assume j: "sint (avgLatency latencies) \<le> 1000000 \<and>
    - 9223372036854775 \<le> sint (jitterValue impl latencies) \<and>
    sint (jitterValue impl latencies) \<le> 9223372036854775"
  then have "sint (jitterValue impl latencies * Microsecond) =
      1000 * sint (jitterValue impl latencies)"
    by (intro microsecond_scaling) simp_all
  then show "sint (SJitter (store_latency_jitter impl latencies server)) =
      1000 * sint (jitterValue impl latencies)"
    using j by (simp add: stored_fields(2) [OF assms])
next
  let ?mean = "(\<Sum>x\<leftarrow>latencies. sint x) sdiv int (length latencies)"
  assume h: "int (length latencies) < 2 ^ 63 \<and> - (2 ^ 63) \<le> (\<Sum>x\<leftarrow>latencies. sint x) \<and>
    (\<Sum>x\<leftarrow>latencies. sint x) < 2 ^ 63 \<and> - 9223372036854775 \<le> ?mean \<and> ?mean \<le> 1000000"
  then have e: "sint (avgLatency latencies) = ?mean"
    using avgLatency_true_mean [OF _ _ _ assms] by blast
  then have "sint (avgLatency latencies * Microsecond) = 1000 * sint (avgLatency latencies)"
    using h by (intro microsecond_scaling) simp_all
  then show "sint (SLatency (store_latency_jitter impl latencies server)) = 1000 * ?mean"
    using h e by (simp add: stored_fields(1) [OF assms])
qed

theorem latency_unit_heuristic_witness:
  "sint (SLatency (store_latency_jitter (\<lambda>_. 0) [400000, 600000]
     \<lparr>Name = '''', Country = '''', SLatency = 0, SJitter = 0, DLSpeed = Fin 0,
      ULSpeed = Fin 0\<rparr>)) = 500000000 \<and>
   sint (SLatency (store_latency_jitter (\<lambda>_. 0) [- 3, - 4]
     \<lparr>Name = '''', Country = '''', SLatency = 0, SJitter = 0, DLSpeed = Fin 0,
      ULSpeed = Fin 0\<rparr>)) = - 3000 \<and>
   sint (SLatency (store_latency_jitter (\<lambda>_. 0) [2000000, 4000000]
     \<lparr>Name = '''', Country = '''', SLatency = 0, SJitter = 0, DLSpeed = Fin 0,
      ULSpeed = Fin 0\<rparr>)) = 3000000"
proof -
  have "avgLatency [400000, 600000] = 500000" "avgLatency [- 3, - 4] = - 3"
    "avgLatency [2000000, 4000000] = 3000000"
    by code_simp+
  then show ?thesis
    using latency_unit_heuristic [of "[400000, 600000]" "\<lambda>_. 0"
        "\<lparr>Name = '''', Country = '''', SLatency = 0, SJitter = 0, DLSpeed = Fin 0,
          ULSpeed = Fin 0\<rparr>"]
      latency_unit_heuristic [of "[- 3, - 4]" "\<lambda>_. 0"
        "\<lparr>Name = '''', Country = '''', SLatency = 0, SJitter = 0, DLSpeed = Fin 0,
          ULSpeed = Fin 0\<rparr>"]
      latency_unit_heuristic [of "[2000000, 4000000]" "\<lambda>_. 0"
        "\<lparr>Name = '''', Country = '''', SLatency = 0, SJitter = 0, DLSpeed = Fin 0,
          ULSpeed = Fin 0\<rparr>"]
    by (simp add: Microsecond_def Nanosecond_def)
qed

section \<open>Properties of the speed test\<close>

text \<open>
  Claim C7. Whenever a phase fails (the fetch of the server list, the selection of a
  server, which fails with an error or finds no server, the latency probe, the download
  test or the upload test), \<open>RunSpeedTest\<close> returns an error that names the phase, with a
  nil result and a nil quality, and has made no library call of a later phase. An error
  never comes with a result or a quality.
\<close>

theorem RunSpeedTest_failure:
  "(FetchServers w = Inl e \<longrightarrow>
      RunSpeedTest w =
        ((None, None, Some (''failed to fetch server list: '' @ e)), [CallFetchServers])) \<and>
   (FetchServers w = Inr ss \<and> FindServer w ss = Inl e \<longrightarrow>
      RunSpeedTest w =
        ((None, None, Some (''failed to find servers: '' @ e)),
         [CallFetchServers, CallFindServer])) \<and>
   (FetchServers w = Inr ss \<and> FindServer w ss = Inr [] \<longrightarrow>
      RunSpeedTest w =
        ((None, None, Some ''no servers found''), [CallFetchServers, CallFindServer])) \<and>
   (FetchServers w = Inr ss \<and> FindServer w ss = Inr (s # rest) \<and> TCPPing w s = Inl e \<longrightarrow>
      RunSpeedTest w =
        ((None, None, Some (''latency test failed: '' @ e)),
         [CallFetchServers, CallFindServer, CallTCPPing])) \<and>
   (FetchServers w = Inr ss \<and> FindServer w ss = Inr (s # rest) \<and>
    latency_test w s = Inr s' \<and> DownloadTest w s' = Inl e \<longrightarrow>
      RunSpeedTest w =
        ((None, None, Some (''download test failed: '' @ e)),
         [CallFetchServers, CallFindServer, CallTCPPing, CallDownloadTest])) \<and>
   (FetchServers w = Inr ss \<and> FindServer w ss = Inr (s # rest) \<and>
    latency_test w s = Inr s' \<and> DownloadTest w s' = Inr dl \<and>
    UploadTest w (s'\<lparr>DLSpeed := dl\<rparr>) = Inl e \<longrightarrow>
      RunSpeedTest w =
        ((None, None, Some (''upload test failed: '' @ e)),
         [CallFetchServers, CallFindServer, CallTCPPing, CallDownloadTest, CallUploadTest])) \<and>
   (snd (snd (fst (RunSpeedTest w))) \<noteq> None \<longrightarrow>
      fst (fst (RunSpeedTest w)) = None \<and> fst (snd (fst (RunSpeedTest w))) = None)"
  by (simp add: RunSpeedTest_def latency_test_def Let_def split: sum.splits list.splits)

theorem RunSpeedTest_failure_witness:
  "RunSpeedTest
     \<lparr>FetchServers = Inl ''offline'', FindServer = (\<lambda>ss. Inr ss), TCPPing = (\<lambda>s. Inr []),
      DownloadTest = (\<lambda>s. Inr (Fin 30)), UploadTest = (\<lambda>s. Inr (Fin 10)),
      conv = (\<lambda>x. 0)\<rparr> =
     ((None, None, Some ''failed to fetch server list: offline''), [CallFetchServers]) \<and>
   RunSpeedTest
     \<lparr>FetchServers = Inr [\<lparr>Name = ''a'', Country = ''b'', SLatency = 0, SJitter = 0,
        DLSpeed = Fin 0, ULSpeed = Fin 0\<rparr>],
      FindServer = (\<lambda>ss. Inr ss), TCPPing = (\<lambda>s. Inr []),
      DownloadTest = (\<lambda>s. Inl ''timeout''), UploadTest = (\<lambda>s. Inr (Fin 10)),
      conv = (\<lambda>x. 0)\<rparr> =
     ((None, None, Some ''download test failed: timeout''),
      [CallFetchServers, CallFindServer, CallTCPPing, CallDownloadTest])"
  using
    RunSpeedTest_failure [where e = "''offline''" and
      w = "\<lparr>FetchServers = Inl ''offline'', FindServer = (\<lambda>ss. Inr ss),
        TCPPing = (\<lambda>s. Inr []), DownloadTest = (\<lambda>s. Inr (Fin 30)),
        UploadTest = (\<lambda>s. Inr (Fin 10)), conv = (\<lambda>x. 0)\<rparr>"]
    RunSpeedTest_failure [where e = "''timeout''" and
      ss = "[\<lparr>Name = ''a'', Country = ''b'', SLatency = 0, SJitter = 0,
        DLSpeed = Fin 0, ULSpeed = Fin 0\<rparr>]" and
      s = "\<lparr>Name = ''a'', Country = ''b'', SLatency = 0, SJitter = 0,
        DLSpeed = Fin 0, ULSpeed = Fin 0\<rparr>" and rest = "[]" and
      s' = "\<lparr>Name = ''a'', Country = ''b'', SLatency = 0, SJitter = 0,
        DLSpeed = Fin 0, ULSpeed = Fin 0\<rparr>" and
      w = "\<lparr>FetchServers = Inr [\<lparr>Name = ''a'', Country = ''b'', SLatency = 0, SJitter = 0,
          DLSpeed = Fin 0, ULSpeed = Fin 0\<rparr>],
        FindServer = (\<lambda>ss. Inr ss), TCPPing = (\<lambda>s. Inr []),
        DownloadTest = (\<lambda>s. Inl ''timeout''), UploadTest = (\<lambda>s. Inr (Fin 10)),
        conv = (\<lambda>x. 0)\<rparr>"]
  by (simp add: latency_test_def store_latency_jitter_def)

text \<open>
  Claim C10, as stated: after a probe that succeeds with an empty list of samples the
  server's latency and jitter are their zero values, and the result reports latency 0
  and jitter 0. The phase does not touch the two fields, and the server comes from the
  library: for a selected server that holds the latency 7000000 and the jitter 9000000,
  the result reports 7000000 and 9000000.
\<close>

theorem empty_probe_nonzero_counterexample:
  "map_option Latency (fst (fst (RunSpeedTest
     \<lparr>FetchServers = Inr [\<lparr>Name = ''a'', Country = ''b'', SLatency = 7000000,
        SJitter = 9000000, DLSpeed = Fin 0, ULSpeed = Fin 0\<rparr>],
      FindServer = (\<lambda>ss. Inr ss), TCPPing = (\<lambda>s. Inr []),
      DownloadTest = (\<lambda>s. Inr (Fin 30)), UploadTest = (\<lambda>s. Inr (Fin 10)),
      conv = (\<lambda>x. 0)\<rparr>))) = Some 7000000 \<and>
   map_option Jitter (fst (fst (RunSpeedTest
     \<lparr>FetchServers = Inr [\<lparr>Name = ''a'', Country = ''b'', SLatency = 7000000,
        SJitter = 9000000, DLSpeed = Fin 0, ULSpeed = Fin 0\<rparr>],
      FindServer = (\<lambda>ss. Inr ss), TCPPing = (\<lambda>s. Inr []),
      DownloadTest = (\<lambda>s. Inr (Fin 30)), UploadTest = (\<lambda>s. Inr (Fin 10)),
      conv = (\<lambda>x. 0)\<rparr>))) = Some 9000000 \<and>
   snd (snd (fst (RunSpeedTest
     \<lparr>FetchServers = Inr [\<lparr>Name = ''a'', Country = ''b'', SLatency = 7000000,
        SJitter = 9000000, DLSpeed = Fin 0, ULSpeed = Fin 0\<rparr>],
      FindServer = (\<lambda>ss. Inr ss), TCPPing = (\<lambda>s. Inr []),
      DownloadTest = (\<lambda>s. Inr (Fin 30)), UploadTest = (\<lambda>s. Inr (Fin 10)),
      conv = (\<lambda>x. 0)\<rparr>))) = None"
  by (simp add: RunSpeedTest_def latency_test_def store_latency_jitter_def Let_def)

text \<open>
  Claim C10, amended. If the probe succeeds with an empty list of samples, the latency
  phase completes without error and leaves the server as it was, \<open>RunSpeedTest\<close> goes on
  to the download test, and when the download and upload tests succeed the result
  reports the latency and jitter that the server held when it was selected: 0 and 0 only
  for a server whose two fields have their zero values.
\<close>

theorem empty_probe_keeps_fields:
  assumes "FetchServers w = Inr ss" and "FindServer w ss = Inr (s # rest)"
    and "TCPPing w s = Inr []"
  shows "latency_test w s = Inr s \<and>
    CallDownloadTest \<in> set (snd (RunSpeedTest w)) \<and>
    (DownloadTest w s = Inr dl \<and> UploadTest w (s\<lparr>DLSpeed := dl\<rparr>) = Inr ul \<longrightarrow>
      (\<exists>result quality. fst (RunSpeedTest w) = (Some result, Some quality, None) \<and>
         Latency result = SLatency s \<and> Jitter result = SJitter s \<and>
         (SLatency s = 0 \<and> SJitter s = 0 \<longrightarrow> Latency result = 0 \<and> Jitter result = 0)))"
  using assms
  by (simp add: RunSpeedTest_def latency_test_def store_latency_jitter_def Let_def
      split: sum.splits list.splits)

theorem empty_probe_keeps_fields_witness:
  "\<exists>result quality.
     fst (RunSpeedTest
       \<lparr>FetchServers = Inr [\<lparr>Name = ''a'', Country = ''b'', SLatency = 0, SJitter = 0,
          DLSpeed = Fin 0, ULSpeed = Fin 0\<rparr>],
        FindServer = (\<lambda>ss. Inr ss), TCPPing = (\<lambda>s. Inr []),
        DownloadTest = (\<lambda>s. Inr (Fin 30)), UploadTest = (\<lambda>s. Inr (Fin 10)),
        conv = (\<lambda>x. 0)\<rparr>) = (Some result, Some quality, None) \<and>
     Latency result = 0 \<and> Jitter result = 0"
  using empty_probe_keeps_fields [where dl = "Fin 30" and ul = "Fin 10" and
      ss = "[\<lparr>Name = ''a'', Country = ''b'', SLatency = 0, SJitter = 0,
        DLSpeed = Fin 0, ULSpeed = Fin 0\<rparr>]" and
      s = "\<lparr>Name = ''a'', Country = ''b'', SLatency = 0, SJitter = 0,
        DLSpeed = Fin 0, ULSpeed = Fin 0\<rparr>" and rest = "[]" and
      w = "\<lparr>FetchServers = Inr [\<lparr>Name = ''a'', Country = ''b'', SLatency = 0, SJitter = 0,
          DLSpeed = Fin 0, ULSpeed = Fin 0\<rparr>],
        FindServer = (\<lambda>ss. Inr ss), TCPPing = (\<lambda>s. Inr []),
        DownloadTest = (\<lambda>s. Inr (Fin 30)), UploadTest = (\<lambda>s. Inr (Fin 10)),
        conv = (\<lambda>x. 0)\<rparr>"]
  by (simp, blast)

section \<open>Properties of the spinner\<close>

lemma spinner_inv_init: "spinner_inv fn_err init_state"
  by (simp add: spinner_inv_def init_state_def)

lemma spinner_inv_step:
  assumes "WithSpinner_step message fn_err s s'" and "spinner_inv fn_err s"
  shows "spinner_inv fn_err s'"
  using assms
  by (cases rule: WithSpinner_step.cases)
    (auto simp: spinner_inv_def rendering_def split: main_pc.splits)

lemma reachable_inv: "reachable message fn_err s \<Longrightarrow> spinner_inv fn_err s"
  by (induction rule: reachable.induct) (auto intro: spinner_inv_init spinner_inv_step)

text \<open>
  Claim C8. In every reachable state in which \<open>WithSpinner\<close> has returned, whether \<open>fn\<close>
  succeeded or failed, the error returned is the one \<open>fn\<close> produced, the render loop has
  returned, the terminal output is spinner frames followed by exactly one clearing of the
  line, which comes last, and no later step writes anything.
\<close>

theorem WithSpinner_returns_clean:
  assumes "reachable message fn_err s" and "mpc s = MReturned err"
  shows "err = fn_err \<and> rpc s = RReturned \<and>
    (\<exists>frames. out s = frames @ [ClearLine] \<and> ClearLine \<notin> set frames) \<and>
    (\<forall>s'. WithSpinner_step message fn_err s s' \<longrightarrow>
       out s' = out s \<and> mpc s' = MReturned err)"
proof -
  have "spinner_inv fn_err s" using assms(1) by (rule reachable_inv)
  then have a: "err = fn_err" "rpc s = RReturned"
    "\<exists>frames. out s = frames @ [ClearLine] \<and> ClearLine \<notin> set frames"
    using assms(2) by (simp_all add: spinner_inv_def)
  have "out s' = out s \<and> mpc s' = MReturned err"
    if "WithSpinner_step message fn_err s s'" for s'
    using that assms(2) a(2) by (cases rule: WithSpinner_step.cases) simp_all
  then show ?thesis using a by blast
qed

theorem WithSpinner_returns_clean_witness:
  "reachable ''Loading'' (Some ''boom'')
     \<lparr>mpc = MReturned (Some ''boom''), rpc = RReturned, apc = ADone, pos = 1,
      errChan = None, sigChan = False, out = [Frame 0 ''Loading'', ClearLine]\<rparr> \<and>
   rpc \<lparr>mpc = MReturned (Some ''boom''), rpc = RReturned, apc = ADone, pos = 1,
      errChan = None, sigChan = False, out = [Frame 0 ''Loading'', ClearLine]\<rparr> = RReturned \<and>
   (\<exists>frames. [Frame 0 ''Loading'', ClearLine] = frames @ [ClearLine] \<and>
      ClearLine \<notin> set frames)"
proof -
  let ?m = "''Loading''" and ?e = "Some ''boom''"
  have "reachable ?m ?e init_state" by (rule reachable.init)
  from reachable.after [OF this WithSpinner_step.Start]
  have "reachable ?m ?e \<lparr>mpc = MSpawn, rpc = RSelect, apc = ANotStarted, pos = 0,
      errChan = None, sigChan = False, out = []\<rparr>"
    by (simp add: init_state_def)
  from reachable.after [OF this WithSpinner_step.Default]
  have "reachable ?m ?e \<lparr>mpc = MSpawn, rpc = RPrint, apc = ANotStarted, pos = 0,
      errChan = None, sigChan = False, out = []\<rparr>"
    by simp
  from reachable.after [OF this WithSpinner_step.Print]
  have "reachable ?m ?e \<lparr>mpc = MSpawn, rpc = RAdvance, apc = ANotStarted, pos = 0,
      errChan = None, sigChan = False, out = [Frame 0 ?m]\<rparr>"
    by simp
  from reachable.after [OF this WithSpinner_step.Advance]
  have "reachable ?m ?e \<lparr>mpc = MSpawn, rpc = RSleep, apc = ANotStarted, pos = 1,
      errChan = None, sigChan = False, out = [Frame 0 ?m]\<rparr>"
    by simp
  from reachable.after [OF this WithSpinner_step.Sleep]
  have "reachable ?m ?e \<lparr>mpc = MSpawn, rpc = RSelect, apc = ANotStarted, pos = 1,
      errChan = None, sigChan = False, out = [Frame 0 ?m]\<rparr>"
    by simp
  from reachable.after [OF this WithSpinner_step.Spawn]
  have "reachable ?m ?e \<lparr>mpc = MWaitErr, rpc = RSelect, apc = ARun, pos = 1,
      errChan = None, sigChan = False, out = [Frame 0 ?m]\<rparr>"
    by simp
  from reachable.after [OF this WithSpinner_step.Action]
  have "reachable ?m ?e \<lparr>mpc = MWaitErr, rpc = RSelect, apc = ADone, pos = 1,
      errChan = Some ?e, sigChan = False, out = [Frame 0 ?m]\<rparr>"
    by simp
  from reachable.after [OF this WithSpinner_step.RecvErr [where err = ?e]]
  have "reachable ?m ?e \<lparr>mpc = MSendStop ?e, rpc = RSelect, apc = ADone, pos = 1,
      errChan = None, sigChan = False, out = [Frame 0 ?m]\<rparr>"
    by simp
  from reachable.after [OF this WithSpinner_step.Stop [where err = ?e]]
  have "reachable ?m ?e \<lparr>mpc = MRecvDone ?e, rpc = RSendDone, apc = ADone, pos = 1,
      errChan = None, sigChan = False, out = [Frame 0 ?m]\<rparr>"
    by simp
  from reachable.after [OF this WithSpinner_step.Done [where err = ?e]]
  have "reachable ?m ?e \<lparr>mpc = MClear ?e, rpc = RReturned, apc = ADone, pos = 1,
      errChan = None, sigChan = False, out = [Frame 0 ?m]\<rparr>"
    by simp
  from reachable.after [OF this WithSpinner_step.Clear [where err = ?e]]
  have r: "reachable ?m ?e \<lparr>mpc = MReturned ?e, rpc = RReturned, apc = ADone, pos = 1,
      errChan = None, sigChan = False, out = [Frame 0 ?m, ClearLine]\<rparr>"
    by simp
  from WithSpinner_returns_clean [OF r, of ?e] r show ?thesis by simp
qed

end
